theory Spec2Isabelle
  imports Complex_Main
begin

section \<open>Data model\<close>

text \<open>
  The pipeline moves pandas DataFrames of daily price bars between a downloader, a
  validator and a DuckDB table. A DataFrame is modelled by its column labels with their
  dtypes and by its rows; a row carries the eight PriceBar cells.

  A float64 cell is a real number, an infinity or NaN; pandas uses NaN as the missing
  value of a numeric column. Comparisons follow IEEE 754: every ordering comparison with
  NaN is false. No arithmetic is done on prices anywhere in the sources, so rounding
  never enters.
\<close>

datatype fnum = NaN | NegInf | Fin real | PosInf

fun fl_lt :: "fnum \<Rightarrow> fnum \<Rightarrow> bool" where
  "fl_lt NaN b = False"
| "fl_lt a NaN = False"
| "fl_lt NegInf NegInf = False"
| "fl_lt NegInf b = True"
| "fl_lt (Fin x) (Fin y) = (x < y)"
| "fl_lt (Fin x) PosInf = True"
| "fl_lt (Fin x) NegInf = False"
| "fl_lt PosInf b = False"

fun fl_ge :: "fnum \<Rightarrow> fnum \<Rightarrow> bool" where
  "fl_ge NaN b = False"
| "fl_ge a NaN = False"
| "fl_ge PosInf b = True"
| "fl_ge a NegInf = True"
| "fl_ge (Fin x) (Fin y) = (y \<le> x)"
| "fl_ge (Fin x) PosInf = False"
| "fl_ge NegInf b = False"

text \<open>
  The volume column holds integer counts; a missing volume is \<open>None\<close> (pandas: NaN), and
  every comparison with a missing volume is false.
\<close>

definition vol_lt :: "int option \<Rightarrow> int \<Rightarrow> bool" where
  "vol_lt v n = (case v of None \<Rightarrow> False | Some k \<Rightarrow> k < n)"

definition vol_ge :: "int option \<Rightarrow> int \<Rightarrow> bool" where
  "vol_ge v n = (case v of None \<Rightarrow> False | Some k \<Rightarrow> n \<le> k)"

text \<open>
  Column labels, after the downloader's renaming. A date is the proleptic Gregorian
  ordinal of a \<^verbatim>\<open>datetime.date\<close>; \<open>None\<close> in \<open>ticker\<close> or \<open>date\<close> is a null cell.
\<close>

datatype column = Ticker | Date | Open | High | Low | Close | Volume | Adj_Close

record row =
  ticker :: "string option"
  date :: "int option"
  open_col :: fnum
  high :: fnum
  low :: fnum
  close :: fnum
  volume :: "int option"
  adj_close :: fnum

text \<open>
  What the validator asks of a column's dtype: \<^verbatim>\<open>is_string_dtype\<close>, \<^verbatim>\<open>is_numeric_dtype\<close>,
  and whether \<^verbatim>\<open>pd.to_datetime\<close> accepts the column (it rejects an object column it
  cannot read as dates).
\<close>

datatype dtype = StringDtype | NumericDtype | DateDtype | ObjectDtype

record frame =
  schema :: "(column \<times> dtype) list"
  rows :: "row list"

definition columns :: "frame \<Rightarrow> column list" where
  "columns df = map fst (schema df)"

definition df_empty :: "frame \<Rightarrow> bool" where
  \<comment> \<open>\<^verbatim>\<open>df.empty\<close>: some axis has length 0\<close>
  "df_empty df = (rows df = [] \<or> schema df = [])"

definition pricebar_schema :: "(column \<times> dtype) list" where
  \<comment> \<open>the columns of a frame in the PriceBar shape, with the dtypes yfinance data has\<close>
  "pricebar_schema =
     [(Ticker, StringDtype), (Date, DateDtype), (Open, NumericDtype), (High, NumericDtype),
      (Low, NumericDtype), (Close, NumericDtype), (Volume, NumericDtype),
      (Adj_Close, NumericDtype)]"

definition bar :: "string \<Rightarrow> int \<Rightarrow> real \<Rightarrow> real \<Rightarrow> real \<Rightarrow> real \<Rightarrow> int \<Rightarrow> row" where
  \<comment> \<open>a row with no missing cell and the adjusted close equal to the close\<close>
  "bar t d o' h l c v =
     \<lparr>ticker = Some t, date = Some d, open_col = Fin o', high = Fin h, low = Fin l,
      close = Fin c, volume = Some v, adj_close = Fin c\<rparr>"

definition is_string_dtype :: "dtype \<Rightarrow> bool" where
  "is_string_dtype t = (t = StringDtype)"

definition is_numeric_dtype :: "dtype \<Rightarrow> bool" where
  "is_numeric_dtype t = (t = NumericDtype)"

definition to_datetime_raises :: "dtype \<Rightarrow> bool" where
  "to_datetime_raises t = (t = ObjectDtype)"

datatype exn =
    AttributeError
  | KeyError
  | ValueError
  | OverflowError
  | BinderException
  | ConversionException
  | ConstraintException
  | IOException

record settings =
  default_start_date :: string
  default_end_date :: string
  max_retries :: int
  retry_delay :: int
  min_data_points :: int

definition default_settings :: "string \<Rightarrow> string \<Rightarrow> settings" where
  \<comment> \<open>\<^verbatim>\<open>Settings()\<close>; the two default dates are computed from the clock at import time\<close>
  "default_settings five_years_ago today =
     \<lparr>default_start_date = five_years_ago, default_end_date = today,
      max_retries = 3, retry_delay = 2, min_data_points = 10\<rparr>"

section \<open>Validator (validator.py)\<close>

definition required_columns :: "column list" where
  "required_columns = [Ticker, Date, Open, High, Low, Close, Volume, Adj_Close]"

definition price_cols :: "column list" where
  "price_cols = [Open, High, Low, Close, Adj_Close]"

fun price :: "column \<Rightarrow> row \<Rightarrow> fnum" where
  "price Open r = open_col r"
| "price High r = high r"
| "price Low r = low r"
| "price Close r = close r"
| "price Adj_Close r = adj_close r"
| "price c r = NaN"

fun isnull :: "column \<Rightarrow> row \<Rightarrow> bool" where
  "isnull Ticker r = (ticker r = None)"
| "isnull Date r = (date r = None)"
| "isnull Volume r = (volume r = None)"
| "isnull c r = (price c r = NaN)"

datatype schema_error =
    EmptyFrame                    \<comment> \<open>"DataFrame is None or empty"\<close>
  | MissingColumns "column list"  \<comment> \<open>"Missing required columns: {...}"\<close>
  | TickerNotString               \<comment> \<open>"Column 'ticker' must be string type"\<close>
  | BadDateFormat                 \<comment> \<open>"Column 'date' must be valid date format: ..."\<close>
  | NotNumeric column             \<comment> \<open>"Column '<col>' must be numeric type"\<close>

datatype quality_warning =
    QEmptyFrame                   \<comment> \<open>"DataFrame is None or empty"\<close>
  | InsufficientData nat int      \<comment> \<open>"Insufficient data: n rows (minimum: m)"\<close>
  | NegativeValues nat column     \<comment> \<open>"Found n negative values in '<col>'"\<close>
  | HighBelowLow nat              \<comment> \<open>"Found n rows where high < low"\<close>
  | MissingValues column nat      \<comment> \<open>"Column '<col>' has n missing values"\<close>
  | DuplicateKeys nat             \<comment> \<open>"Found n duplicate ticker-date combinations"\<close>
  | DateGaps nat                  \<comment> \<open>"Found n date gaps larger than 7 days"\<close>
  | SkippedQuality                \<comment> \<open>"Skipped quality validation due to schema errors"\<close>

definition dtype_fails :: "frame \<Rightarrow> column \<Rightarrow> (dtype \<Rightarrow> bool) \<Rightarrow> bool" where
  \<comment> \<open>\<^verbatim>\<open>col in df.columns and not ok(df[col])\<close>\<close>
  "dtype_fails df c ok = (case map_of (schema df) c of None \<Rightarrow> False | Some t \<Rightarrow> \<not> ok t)"

definition schema_errors :: "frame \<Rightarrow> schema_error list" where
  \<comment> \<open>the list \<^verbatim>\<open>errors\<close> of \<^verbatim>\<open>validate_schema\<close> for a non-empty frame, in the source's order;
      \<^verbatim>\<open>missing_cols\<close> is a Python set, listed here in the order of \<^verbatim>\<open>required_columns\<close>\<close>
  "schema_errors d =
     (let missing_cols = filter (\<lambda>c. c \<notin> set (columns d)) required_columns
      in (if missing_cols \<noteq> [] then [MissingColumns missing_cols] else [])
         @ (if dtype_fails d Ticker is_string_dtype then [TickerNotString] else [])
         @ (if dtype_fails d Date (\<lambda>t. \<not> to_datetime_raises t) then [BadDateFormat] else [])
         @ concat (map (\<lambda>c. if dtype_fails d c is_numeric_dtype
                              then [NotNumeric c] else []) price_cols)
         @ (if dtype_fails d Volume is_numeric_dtype then [NotNumeric Volume] else []))"

definition validate_schema :: "frame option \<Rightarrow> bool \<times> schema_error list" where
  "validate_schema df =
     (case df of
        None \<Rightarrow> (False, [EmptyFrame])
      | Some d \<Rightarrow>
          if df_empty d then (False, [EmptyFrame])
          else (let errors = schema_errors d in (errors = [], errors)))"

definition count_rows :: "(row \<Rightarrow> bool) \<Rightarrow> frame \<Rightarrow> nat" where
  \<comment> \<open>\<^verbatim>\<open>mask.sum()\<close>\<close>
  "count_rows p df = length (filter p (rows df))"

definition key :: "row \<Rightarrow> string option \<times> int option" where
  "key r = (ticker r, date r)"

definition duplicated_count :: "frame \<Rightarrow> nat" where
  \<comment> \<open>\<^verbatim>\<open>df.duplicated(subset=['ticker', 'date']).sum()\<close>: rows repeating an earlier key\<close>
  "duplicated_count df = length (rows df) - length (remdups (map key (rows df)))"

definition large_gaps :: "frame \<Rightarrow> nat" where
  \<comment> \<open>sort by date (nulls last), difference of neighbours in days, count those above 7;
      a difference with a null date is NaN and is not counted\<close>
  "large_gaps df =
     (let ds = sort (concat (map (\<lambda>r. case date r of None \<Rightarrow> [] | Some d \<Rightarrow> [d]) (rows df)))
      in length (filter (\<lambda>(a, b). b - a > 7) (zip ds (tl ds))))"

definition check_min_points :: "settings \<Rightarrow> frame \<Rightarrow> quality_warning list" where
  "check_min_points s d =
     (if int (length (rows d)) < min_data_points s
      then [InsufficientData (length (rows d)) (min_data_points s)] else [])"

definition check_negative_prices :: "frame \<Rightarrow> quality_warning list" where
  "check_negative_prices d =
     concat (map (\<lambda>c.
       if c \<in> set (columns d)
       then (let negative_count = count_rows (\<lambda>r. fl_lt (price c r) (Fin 0)) d
             in if negative_count > 0 then [NegativeValues negative_count c] else [])
       else []) price_cols)"

definition check_negative_volume :: "frame \<Rightarrow> quality_warning list" where
  "check_negative_volume d =
     (if Volume \<in> set (columns d)
      then (let negative_volume = count_rows (\<lambda>r. vol_lt (volume r) 0) d
            in if negative_volume > 0 then [NegativeValues negative_volume Volume] else [])
      else [])"

definition check_high_low :: "frame \<Rightarrow> quality_warning list" where
  "check_high_low d =
     (if High \<in> set (columns d) \<and> Low \<in> set (columns d)
      then (let invalid_high_low = count_rows (\<lambda>r. fl_lt (high r) (low r)) d
            in if invalid_high_low > 0 then [HighBelowLow invalid_high_low] else [])
      else [])"

definition check_missing :: "frame \<Rightarrow> quality_warning list" where
  \<comment> \<open>\<^verbatim>\<open>df[self.required_columns].isnull().sum()\<close>, one warning per column with nulls\<close>
  "check_missing d =
     concat (map (\<lambda>c.
       let n = count_rows (isnull c) d
       in if n > 0 then [MissingValues c n] else []) required_columns)"

definition check_duplicates :: "frame \<Rightarrow> quality_warning list" where
  "check_duplicates d =
     (if Ticker \<in> set (columns d) \<and> Date \<in> set (columns d)
      then (let duplicates = duplicated_count d
            in if duplicates > 0 then [DuplicateKeys duplicates] else [])
      else [])"

definition check_gaps :: "frame \<Rightarrow> quality_warning list" where
  "check_gaps d =
     (if Date \<in> set (columns d) \<and> length (rows d) > 1
      then (if large_gaps d > 0 then [DateGaps (large_gaps d)] else [])
      else [])"

definition validate_data_quality ::
  "settings \<Rightarrow> frame option \<Rightarrow> exn + (bool \<times> quality_warning list)" where
  \<comment> \<open>the checks run in the source's order; the two that can raise are the selection
      \<^verbatim>\<open>df[self.required_columns]\<close> (KeyError on an absent column) and \<^verbatim>\<open>pd.to_datetime\<close>
      in the gap check; no check has an effect, so a raise discards the warnings so far\<close>
  "validate_data_quality s df =
     (case df of
        None \<Rightarrow> Inr (False, [QEmptyFrame])
      | Some d \<Rightarrow>
          if df_empty d then Inr (False, [QEmptyFrame])
          else if \<not> set required_columns \<subseteq> set (columns d) then Inl KeyError
          else if Date \<in> set (columns d) \<and> length (rows d) > 1
                  \<and> dtype_fails d Date (\<lambda>t. \<not> to_datetime_raises t)
          then Inl ValueError
          else
            let warnings = check_min_points s d @ check_negative_prices d
                           @ check_negative_volume d @ check_high_low d
                           @ check_missing d @ check_duplicates d @ check_gaps d
            in Inr (warnings = [], warnings))"

definition validate ::
  "settings \<Rightarrow> frame option \<Rightarrow> exn + (bool \<times> schema_error list \<times> quality_warning list)" where
  "validate s df =
     (let (schema_valid, schema_errors) = validate_schema df
      in case (if schema_valid then validate_data_quality s df
               else Inr (False, [SkippedQuality])) of
           Inl e \<Rightarrow> Inl e
         | Inr (quality_valid, quality_warnings) \<Rightarrow>
             (case df of
                None \<Rightarrow> Inl AttributeError  \<comment> \<open>\<^verbatim>\<open>df.columns\<close> on None, for the log line\<close>
              | Some d \<Rightarrow> Inr (schema_valid \<and> quality_valid, schema_errors, quality_warnings)))"

definition keep_rows :: "(row \<Rightarrow> bool) \<Rightarrow> frame \<Rightarrow> frame" where
  \<comment> \<open>\<^verbatim>\<open>df[mask]\<close>\<close>
  "keep_rows p df = df\<lparr>rows := filter p (rows df)\<rparr>"

definition drop_negative :: "column \<Rightarrow> frame \<Rightarrow> frame" where
  \<comment> \<open>body of the loop over the price columns: \<^verbatim>\<open>if col in df.columns: df = df[df[col] >= 0]\<close>\<close>
  "drop_negative c d =
     (if c \<in> set (columns d) then keep_rows (\<lambda>r. fl_ge (price c r) (Fin 0)) d else d)"

definition filter_invalid_rows :: "frame option \<Rightarrow> exn + frame option" where
  "filter_invalid_rows df =
     (case df of
        None \<Rightarrow> Inr None
      | Some d \<Rightarrow>
          if df_empty d then Inr (Some d)
          else
            let d1 = fold drop_negative price_cols d;
                d2 = (if Volume \<in> set (columns d1)
                      then keep_rows (\<lambda>r. vol_ge (volume r) 0) d1 else d1);
                d3 = (if High \<in> set (columns d2) \<and> Low \<in> set (columns d2)
                      then keep_rows (\<lambda>r. fl_ge (high r) (low r)) d2 else d2)
            in
              if \<not> {Ticker, Date, Close} \<subseteq> set (columns d3) then Inl KeyError
              else Inr (Some (keep_rows
                     (\<lambda>r. ticker r \<noteq> None \<and> date r \<noteq> None \<and> close r \<noteq> NaN) d3)))"


section \<open>Storage (storage.py)\<close>

text \<open>
  The table \<^verbatim>\<open>stock_prices\<close> holds the eight PriceBar columns and \<^verbatim>\<open>created_at\<close>, which the
  engine fills with the time of the insert. The table lives in the database file; the
  storage object adds the connection, which is open or \<^verbatim>\<open>None\<close>. The table is a list only
  so that it can be evaluated: no query of the sources depends on the order of its rows.
\<close>

record stored =
  data :: row
  created_at :: nat

record storage =
  conn :: bool
  table :: "stored list"

definition date_values :: "row list \<Rightarrow> int list" where
  \<comment> \<open>the non-null cells of the date column\<close>
  "date_values rs = concat (map (\<lambda>r. case date r of None \<Rightarrow> [] | Some x \<Rightarrow> [x]) rs)"

definition date_min :: "frame \<Rightarrow> int option" where
  \<comment> \<open>\<^verbatim>\<open>df['date'].min()\<close>: nulls are skipped, and the minimum of no value is null\<close>
  "date_min df = (case date_values (rows df) of [] \<Rightarrow> None | x # xs \<Rightarrow> Some (fold min xs x))"

definition date_max :: "frame \<Rightarrow> int option" where
  "date_max df = (case date_values (rows df) of [] \<Rightarrow> None | x # xs \<Rightarrow> Some (fold max xs x))"

definition get_last_date :: "storage \<Rightarrow> string \<Rightarrow> exn + int option" where
  \<comment> \<open>\<^verbatim>\<open>SELECT MAX(date) FROM stock_prices WHERE ticker = ?\<close>; \<^verbatim>\<open>self.conn.execute\<close> on a closed
      storage is an attribute access on \<^verbatim>\<open>None\<close>\<close>
  "get_last_date st t =
     (if \<not> conn st then Inl AttributeError
      else case date_values (filter (\<lambda>r. ticker r = Some t) (map data (table st))) of
             [] \<Rightarrow> Inr None
           | x # xs \<Rightarrow> Inr (Some (fold max xs x)))"

definition in_span :: "string option \<Rightarrow> int option \<Rightarrow> int option \<Rightarrow> stored \<Rightarrow> bool" where
  \<comment> \<open>\<^verbatim>\<open>WHERE ticker = ? AND date BETWEEN ? AND ?\<close>; a comparison with NULL selects nothing\<close>
  "in_span t lo hi s =
     (case (t, lo, hi, ticker (data s), date (data s)) of
        (Some t', Some a, Some b, Some u, Some x) \<Rightarrow> u = t' \<and> a \<le> x \<and> x \<le> b
      | _ \<Rightarrow> False)"

definition fits_bigint :: "int option \<Rightarrow> bool" where
  \<comment> \<open>the column \<^verbatim>\<open>volume BIGINT\<close>: a null is stored as NULL, an integer must be a signed
      64-bit value\<close>
  "fits_bigint v = (case v of None \<Rightarrow> True | Some n \<Rightarrow> - (2 ^ 63) \<le> n \<and> n < 2 ^ 63)"

definition violates :: "stored list \<Rightarrow> row list \<Rightarrow> bool" where
  \<comment> \<open>the constraints of \<^verbatim>\<open>CREATE TABLE\<close> that an INSERT of \<open>rs\<close> can break: \<^verbatim>\<open>NOT NULL\<close> on
      ticker and date, and \<^verbatim>\<open>PRIMARY KEY (ticker, date)\<close> among the new rows and against the
      rows of the table\<close>
  "violates tbl rs =
     ((\<exists>r\<in>set rs. ticker r = None \<or> date r = None)
      \<or> \<not> distinct (map key rs)
      \<or> (\<exists>r\<in>set rs. key r \<in> set (map (\<lambda>s. key (data s)) tbl)))"

definition upsert_data :: "nat \<Rightarrow> frame option \<Rightarrow> storage \<Rightarrow> (exn + nat) \<times> storage" where
  \<comment> \<open>\<open>now\<close> is the engine's clock at the INSERT. The two statements run in autocommit mode,
      so the DELETE stays when the INSERT fails; a failed INSERT adds no row. The result is
      the returned count or the exception that is re-raised, with the storage after the call.
      The DELETE is given the least and the greatest date as parameters: when the column
      holds no date they are NaN, which does not bind to a DATE, and the statement fails
      before any row is touched. The INSERT fails to bind when a column it names is absent,
      fails to convert a volume that is not a BIGINT, and fails on a broken constraint.\<close>
  "upsert_data now df st =
     (case df of
        None \<Rightarrow> (Inr 0, st)
      | Some d \<Rightarrow>
          if df_empty d then (Inr 0, st)
          else if Ticker \<notin> set (columns d) then (Inl KeyError, st)
          else
            let t = ticker (hd (rows d))  \<comment> \<open>\<^verbatim>\<open>df['ticker'].iloc[0]\<close>, the frame is not empty\<close>
            in
              if Date \<notin> set (columns d) then (Inl KeyError, st)
              else
                let min_date = date_min d;
                    max_date = date_max d
                in
                  if \<not> conn st then (Inl AttributeError, st)
                  else if min_date = None \<or> max_date = None then (Inl BinderException, st)
                  else
                    let st1 = st\<lparr>table := filter (\<lambda>s. \<not> in_span t min_date max_date s)
                                                (table st)\<rparr>
                    in
                      if \<not> set required_columns \<subseteq> set (columns d)
                      then (Inl BinderException, st1)
                      else if \<not> list_all (\<lambda>r. fits_bigint (volume r)) (rows d)
                      then (Inl ConversionException, st1)
                      else if violates (table st1) (rows d) then (Inl ConstraintException, st1)
                      else (Inr (length (rows d)),
                            st1\<lparr>table := table st1
                                    @ map (\<lambda>r. \<lparr>data = r, created_at = now\<rparr>) (rows d)\<rparr>))"

definition bulk_upsert ::
  "nat \<Rightarrow> (string \<times> frame option) list \<Rightarrow> storage \<Rightarrow> (string \<times> nat) list \<times> storage" where
  \<comment> \<open>the dictionary as the list of its items, in iteration order; a failed upsert counts 0\<close>
  "bulk_upsert now data_dict st =
     fold (\<lambda>(tk, df) (results, st).
            case upsert_data now df st of
              (Inr n, st') \<Rightarrow> (results @ [(tk, n)], st')
            | (Inl e, st') \<Rightarrow> (results @ [(tk, 0)], st'))
          data_dict ([], st)"

definition key_unique :: "stored list \<Rightarrow> bool" where
  \<comment> \<open>at most one row per (ticker, date)\<close>
  "key_unique tbl = distinct (map (\<lambda>s. key (data s)) tbl)"

section \<open>Downloader (downloader.py)\<close>

text \<open>
  Python's \<^verbatim>\<open>a or b\<close> on an optional string and on an optional integer: \<^verbatim>\<open>None\<close>, the empty
  string and 0 are falsy.
\<close>

definition truthy :: "string option \<Rightarrow> bool" where
  "truthy a = (case a of None \<Rightarrow> False | Some s \<Rightarrow> s \<noteq> [])"

definition str_or :: "string option \<Rightarrow> string \<Rightarrow> string" where
  "str_or a b = (case a of None \<Rightarrow> b | Some s \<Rightarrow> if s = [] then b else s)"

definition int_or :: "int option \<Rightarrow> int \<Rightarrow> int" where
  "int_or a b = (case a of None \<Rightarrow> b | Some n \<Rightarrow> if n = 0 then b else n)"

record downloader =
  dl_max_retries :: int
  dl_retry_delay :: int

definition new_downloader :: "settings \<Rightarrow> int option \<Rightarrow> int option \<Rightarrow> downloader" where
  \<comment> \<open>\<^verbatim>\<open>StockDataDownloader.__init__\<close>\<close>
  "new_downloader cfg mr rd =
     \<lparr>dl_max_retries = int_or mr (max_retries cfg), dl_retry_delay = int_or rd (retry_delay cfg)\<rparr>"

text \<open>
  The provider is outside the program: \<open>yf ticker start end attempt\<close> is what
  \<^verbatim>\<open>yf.Ticker(ticker).history(start, end)\<close> gives at the given attempt of a call, an exception
  or a frame. The frame is taken with its index already a column and with the labels the
  renaming gives, both of which are one-to-one relabellings.
\<close>

type_synonym provider = "string \<Rightarrow> string \<Rightarrow> string \<Rightarrow> int \<Rightarrow> exn + frame"

definition normalize :: "string \<Rightarrow> frame \<Rightarrow> exn + frame" where
  \<comment> \<open>the body of the \<^verbatim>\<open>try\<close> after the emptiness test: \<^verbatim>\<open>df['ticker'] = ticker\<close>, the
      selection \<^verbatim>\<open>df[required_cols]\<close> (KeyError on an absent column) and the conversion of
      the date column (an exception when \<^verbatim>\<open>pd.to_datetime\<close> rejects it)\<close>
  "normalize t df =
     (let df1 = \<lparr>schema = (Ticker, StringDtype) # filter (\<lambda>(c, ty). c \<noteq> Ticker) (schema df),
                 rows = map (\<lambda>r. r\<lparr>ticker := Some t\<rparr>) (rows df)\<rparr>
      in if \<not> set required_columns \<subseteq> set (columns df1) then Inl KeyError
         else if dtype_fails df1 Date (\<lambda>ty. \<not> to_datetime_raises ty) then Inl ValueError
         else Inr \<lparr>schema = map (\<lambda>c. (c, if c = Date then DateDtype
                                          else case map_of (schema df1) c of
                                                 Some ty \<Rightarrow> ty | None \<Rightarrow> ObjectDtype))
                               required_columns,
                   rows = rows df1\<rparr>)"

definition attempt_body ::
  "provider \<Rightarrow> string \<Rightarrow> string \<Rightarrow> string \<Rightarrow> int \<Rightarrow> exn + frame option" where
  \<comment> \<open>one run of the \<^verbatim>\<open>try\<close> block: \<open>Inl\<close> an exception, \<open>Inr\<close> the value returned\<close>
  "attempt_body yf t s e attempt =
     (case yf t s e attempt of
        Inl ex \<Rightarrow> Inl ex
      | Inr df \<Rightarrow>
          if df_empty df then Inr None
          else (case normalize t df of Inl ex \<Rightarrow> Inl ex | Inr df' \<Rightarrow> Inr (Some df')))"

definition sleep :: "int \<Rightarrow> exn option" where
  \<comment> \<open>\<^verbatim>\<open>time.sleep(secs)\<close> on an integer: the exception it raises, if any. The length is
      converted to 64-bit nanoseconds, which overflows beyond 9223372036 seconds, and must
      not be negative. The wait itself changes nothing that the program observes.\<close>
  "sleep secs =
     (if secs < - 9223372036 \<or> 9223372036 < secs then Some OverflowError
      else if secs < 0 then Some ValueError
      else None)"

fun attempts ::
  "downloader \<Rightarrow> (int \<Rightarrow> exn + frame option) \<Rightarrow> int list \<Rightarrow> exn + frame option" where
  \<comment> \<open>\<^verbatim>\<open>for attempt in range(self.max_retries)\<close>; a loop that runs out returns \<^verbatim>\<open>None\<close>, as a
      Python function without a \<^verbatim>\<open>return\<close> does. The handler catches what the \<^verbatim>\<open>try\<close> block
      raises; an exception of \<^verbatim>\<open>time.sleep\<close> is raised in the handler and leaves the
      function.\<close>
  "attempts dl body [] = Inr None"
| "attempts dl body (attempt # rest) =
     (case body attempt of
        Inr result \<Rightarrow> Inr result
      | Inl ex \<Rightarrow>
          if attempt < dl_max_retries dl - 1
          then (case sleep (dl_retry_delay dl) of
                  Some sleep_ex \<Rightarrow> Inl sleep_ex
                | None \<Rightarrow> attempts dl body rest)
          else Inr None)"

definition download_ticker ::
  "settings \<Rightarrow> downloader \<Rightarrow> provider \<Rightarrow> string \<Rightarrow> string option \<Rightarrow> string option
   \<Rightarrow> exn + frame option" where
  \<comment> \<open>\<open>Inr\<close> the value returned, a frame or \<^verbatim>\<open>None\<close>; \<open>Inl\<close> the exception that leaves the call\<close>
  "download_ticker cfg dl yf t start_date end_date =
     (let s = str_or start_date (default_start_date cfg);
          e = str_or end_date (default_end_date cfg)
      in attempts dl (attempt_body yf t s e) [0..dl_max_retries dl - 1])"

section \<open>Pipeline (pipeline.py)\<close>

datatype message =
    NoDataAvailable string                        \<comment> \<open>"<ticker>: No data available"\<close>
  | SchemaValidationFailed string "schema_error list"
                                                  \<comment> \<open>"<ticker>: Schema validation failed - [...]"\<close>
  | DataQualityWarnings string "quality_warning list"
                                                  \<comment> \<open>"<ticker>: Data quality warnings - [...]"\<close>
  | AllRowsFiltered string    \<comment> \<open>"<ticker>: All rows filtered out due to quality issues"\<close>
  | PipelineError string exn                      \<comment> \<open>"<ticker>: Pipeline error - <e>"\<close>
  | PipelineFatalError exn                        \<comment> \<open>"Pipeline fatal error: <e>"\<close>

record results =
  tickers_processed :: nat
  tickers_failed :: nat
  total_rows_inserted :: nat
  errors :: "message list"
  warnings :: "message list"
  duration_recorded :: bool  \<comment> \<open>whether the key \<^verbatim>\<open>duration_seconds\<close> was set\<close>

definition initial_results :: results where
  "initial_results =
     \<lparr>tickers_processed = 0, tickers_failed = 0, total_rows_inserted = 0,
      errors = [], warnings = [], duration_recorded = False\<rparr>"

text \<open>
  What the run takes from outside the program: the provider, the rendering
  \<^verbatim>\<open>strftime('%Y-%m-%d')\<close> of a date, the outcome of \<^verbatim>\<open>duckdb.connect\<close> followed by the
  creation of the schema, and the engine's clock at the insert for a ticker.
\<close>

datatype connect_outcome =
    ConnectOk
  | ConnectFails exn      \<comment> \<open>\<^verbatim>\<open>duckdb.connect\<close> raises: \<^verbatim>\<open>self.conn\<close> stays \<^verbatim>\<open>None\<close>\<close>
  | SchemaInitFails exn   \<comment> \<open>\<^verbatim>\<open>CREATE TABLE\<close> raises: \<^verbatim>\<open>self.conn\<close> is already set\<close>

record env =
  yfinance :: provider
  strftime :: "int \<Rightarrow> string"
  connect_outcome :: connect_outcome
  insert_time :: "string \<Rightarrow> nat"

definition connect :: "connect_outcome \<Rightarrow> storage \<Rightarrow> exn option \<times> storage" where
  "connect outcome st =
     (if conn st then (None, st)
      else case outcome of
             ConnectOk \<Rightarrow> (None, st\<lparr>conn := True\<rparr>)
           | ConnectFails e \<Rightarrow> (Some e, st)
           | SchemaInitFails e \<Rightarrow> (Some e, st\<lparr>conn := True\<rparr>))"

definition close_storage :: "storage \<Rightarrow> storage" where
  \<comment> \<open>\<^verbatim>\<open>DuckDBStorage.close\<close>\<close>
  "close_storage st = st\<lparr>conn := False\<rparr>"

definition max_ordinal :: int where
  \<comment> \<open>\<^verbatim>\<open>date.max\<close>, the day 9999-12-31\<close>
  "max_ordinal = 3652059"

definition next_day :: "int \<Rightarrow> exn + int" where
  \<comment> \<open>\<^verbatim>\<open>last_date + timedelta(days=1)\<close>: there is no day after \<^verbatim>\<open>date.max\<close>\<close>
  "next_day d = (if d < max_ordinal then Inr (d + 1) else Inl OverflowError)"

definition fetch_window ::
  "env \<Rightarrow> settings \<Rightarrow> bool \<Rightarrow> string option \<Rightarrow> string option \<Rightarrow> storage \<Rightarrow> string
   \<Rightarrow> exn + (string \<times> string)" where
  \<comment> \<open>"Determine date range": the pair \<^verbatim>\<open>(download_start, download_end)\<close>, or the exception
      of \<^verbatim>\<open>get_last_date\<close> or of the date arithmetic\<close>
  "fetch_window ev cfg incremental start_date end_date st t =
     (let download_end = str_or end_date (default_end_date cfg)
      in if incremental \<and> \<not> truthy start_date
         then (case get_last_date st t of
                 Inl e \<Rightarrow> Inl e
               | Inr (Some last_date) \<Rightarrow>
                   (case next_day last_date of
                      Inl e \<Rightarrow> Inl e
                    | Inr day_after \<Rightarrow> Inr (strftime ev day_after, download_end))
               | Inr None \<Rightarrow> Inr (default_start_date cfg, download_end))
         else Inr (str_or start_date (default_start_date cfg), download_end))"

definition no_data :: "string \<Rightarrow> results \<Rightarrow> results" where
  "no_data t res = res\<lparr>warnings := warnings res @ [NoDataAvailable t]\<rparr>"

definition fail_with :: "message \<Rightarrow> results \<Rightarrow> results" where
  \<comment> \<open>\<^verbatim>\<open>results['errors'].append(error_msg); results['tickers_failed'] += 1\<close>\<close>
  "fail_with m res = res\<lparr>errors := errors res @ [m], tickers_failed := tickers_failed res + 1\<rparr>"

definition process_ticker ::
  "env \<Rightarrow> settings \<Rightarrow> downloader \<Rightarrow> bool \<Rightarrow> string option \<Rightarrow> string option \<Rightarrow> bool
   \<Rightarrow> string \<Rightarrow> results \<times> storage \<Rightarrow> exn option \<times> results \<times> storage" where
  \<comment> \<open>the inner \<^verbatim>\<open>try\<close> block for one ticker: the exception that leaves it, if any, with the
      report and the storage as they are at that point (\<^verbatim>\<open>results\<close> is mutated in place)\<close>
  "process_ticker ev cfg dl incremental start_date end_date validate_only t rs =
     (case rs of (res, st) \<Rightarrow>
      case fetch_window ev cfg incremental start_date end_date st t of
        Inl e \<Rightarrow> (Some e, res, st)
      | Inr (download_start, download_end) \<Rightarrow>
          (case download_ticker cfg dl (yfinance ev) t (Some download_start) (Some download_end) of
             Inl e \<Rightarrow> (Some e, res, st)
           | Inr None \<Rightarrow> (None, no_data t res, st)
           | Inr (Some df) \<Rightarrow>
               if df_empty df then (None, no_data t res, st)
               else
                 (case validate cfg (Some df) of
                    Inl e \<Rightarrow> (Some e, res, st)
                  | Inr (is_valid, schema_errs, quality_warns) \<Rightarrow>
                      if schema_errs \<noteq> []
                      then (None, fail_with (SchemaValidationFailed t schema_errs) res, st)
                      else
                        let res1 = (if quality_warns \<noteq> []
                                    then res\<lparr>warnings := warnings res
                                               @ [DataQualityWarnings t quality_warns]\<rparr>
                                    else res)
                        in
                          (case (if quality_warns \<noteq> [] then filter_invalid_rows (Some df)
                                 else Inr (Some df)) of
                             Inl e \<Rightarrow> (Some e, res1, st)
                           | Inr None \<Rightarrow> (Some AttributeError, res1, st)
                           | Inr (Some df') \<Rightarrow>
                               if quality_warns \<noteq> [] \<and> df_empty df'
                               then (None, fail_with (AllRowsFiltered t) res1, st)
                               else if \<not> validate_only
                               then (case upsert_data (insert_time ev t) (Some df') st of
                                       (Inl e, st') \<Rightarrow> (Some e, res1, st')
                                     | (Inr rows_inserted, st') \<Rightarrow>
                                         (None,
                                          res1\<lparr>total_rows_inserted :=
                                                  total_rows_inserted res1 + rows_inserted,
                                                tickers_processed := tickers_processed res1 + 1\<rparr>,
                                          st'))
                               else (None,
                                     res1\<lparr>tickers_processed := tickers_processed res1 + 1\<rparr>,
                                     st)))))"

definition step_ticker ::
  "env \<Rightarrow> settings \<Rightarrow> downloader \<Rightarrow> bool \<Rightarrow> string option \<Rightarrow> string option \<Rightarrow> bool
   \<Rightarrow> string \<Rightarrow> results \<times> storage \<Rightarrow> results \<times> storage" where
  \<comment> \<open>one iteration of the loop: the \<^verbatim>\<open>try\<close> block and its \<^verbatim>\<open>except Exception\<close> handler\<close>
  "step_ticker ev cfg dl incremental start_date end_date validate_only t rs =
     (case process_ticker ev cfg dl incremental start_date end_date validate_only t rs of
        (None, res, st) \<Rightarrow> (res, st)
      | (Some e, res, st) \<Rightarrow> (fail_with (PipelineError t e) res, st))"

definition run_tickers ::
  "env \<Rightarrow> settings \<Rightarrow> downloader \<Rightarrow> bool \<Rightarrow> string option \<Rightarrow> string option \<Rightarrow> bool
   \<Rightarrow> string list \<Rightarrow> results \<times> storage \<Rightarrow> results \<times> storage" where
  \<comment> \<open>\<^verbatim>\<open>for ticker in tickers\<close>\<close>
  "run_tickers ev cfg dl incremental start_date end_date validate_only tickers rs =
     fold (step_ticker ev cfg dl incremental start_date end_date validate_only) tickers rs"

definition run ::
  "env \<Rightarrow> settings \<Rightarrow> downloader \<Rightarrow> bool \<Rightarrow> string list \<Rightarrow> string option \<Rightarrow> string option
   \<Rightarrow> bool \<Rightarrow> storage \<Rightarrow> results \<times> storage" where
  \<comment> \<open>\<^verbatim>\<open>IngestionPipeline.run\<close>: the outer \<^verbatim>\<open>try\<close> with its handler, and \<^verbatim>\<open>finally\<close> closing the
      storage; the storage passed in is the pipeline's own\<close>
  "run ev cfg dl incremental tickers start_date end_date validate_only st =
     (case connect (connect_outcome ev) st of
        (Some e, st1) \<Rightarrow>
          (initial_results\<lparr>errors := [PipelineFatalError e]\<rparr>, close_storage st1)
      | (None, st1) \<Rightarrow>
          (case run_tickers ev cfg dl incremental start_date end_date validate_only tickers
                  (initial_results, st1) of
             (res, st2) \<Rightarrow> (res\<lparr>duration_recorded := True\<rparr>, close_storage st2)))"

definition run_pipeline ::
  "env \<Rightarrow> settings \<Rightarrow> string list \<Rightarrow> string option \<Rightarrow> string option \<Rightarrow> bool \<Rightarrow> bool
   \<Rightarrow> stored list \<Rightarrow> results \<times> storage" where
  \<comment> \<open>\<^verbatim>\<open>run_pipeline\<close>: a fresh pipeline, whose storage is not connected, on the database file\<close>
  "run_pipeline ev cfg tickers start_date end_date incremental validate_only db =
     run ev cfg (new_downloader cfg None None) incremental tickers start_date end_date
       validate_only \<lparr>conn = False, table = db\<rparr>"

section \<open>Observations on a report, and a concrete environment\<close>

fun is_no_data :: "message \<Rightarrow> bool" where
  "is_no_data (NoDataAvailable t) = True"
| "is_no_data m = False"

definition is_engine_exn :: "exn \<Rightarrow> bool" where
  \<comment> \<open>the exceptions of the database engine on a statement; in a run only \<open>upsert_data\<close>
      raises them\<close>
  "is_engine_exn x = (x = BinderException \<or> x = ConversionException \<or> x = ConstraintException)"

fun is_store_write_error :: "message \<Rightarrow> bool" where
  \<comment> \<open>the pipeline error of a ticker whose store write failed\<close>
  "is_store_write_error (PipelineError t x) = is_engine_exn x"
| "is_store_write_error m = False"

definition skipped :: "results \<Rightarrow> nat" where
  \<comment> \<open>the tickers recorded as having no data: neither processed nor failed\<close>
  "skipped res = length (filter is_no_data (warnings res))"

text \<open>
  \<^verbatim>\<open>date.strftime('%Y-%m-%d')\<close> on the ordinal of a date, for the years 1000 to 9999: the
  civil date of a day number, printed with leading zeros.
\<close>

definition digit :: "int \<Rightarrow> char" where
  "digit n = ''0123456789'' ! nat (n mod 10)"

definition iso_date :: "int \<Rightarrow> string" where
  "iso_date ordinal =
     (let z = ordinal + 305;
          era = z div 146097;
          doe = z - era * 146097;
          yoe = (doe - doe div 1460 + doe div 36524 - doe div 146096) div 365;
          doy = doe - (365 * yoe + yoe div 4 - yoe div 100);
          mp = (5 * doy + 2) div 153;
          d = doy - (153 * mp + 2) div 5 + 1;
          m = (if mp < 10 then mp + 3 else mp - 9);
          y = yoe + era * 400 + (if m \<le> 2 then 1 else 0)
      in [digit (y div 1000), digit (y div 100), digit (y div 10), digit y] @ ''-''
         @ [digit (m div 10), digit m] @ ''-'' @ [digit (d div 10), digit d])"

definition history_schema :: "(column \<times> dtype) list" where
  \<comment> \<open>the columns of a \<^verbatim>\<open>history\<close> frame: the PriceBar columns but the ticker\<close>
  "history_schema = tl pricebar_schema"

definition quote :: "int \<Rightarrow> real \<Rightarrow> real \<Rightarrow> real \<Rightarrow> real \<Rightarrow> int \<Rightarrow> row" where
  \<comment> \<open>a row of a \<^verbatim>\<open>history\<close> frame\<close>
  "quote d o' h l c v = (bar [] d o' h l c v)\<lparr>ticker := None\<rparr>"

definition empty_provider :: provider where
  \<comment> \<open>the provider has no data for any range\<close>
  "empty_provider t s e attempt = Inr \<lparr>schema = history_schema, rows = []\<rparr>"

definition failing_provider :: provider where
  \<comment> \<open>every request fails\<close>
  "failing_provider t s e attempt = Inl IOException"

definition repeating_provider :: provider where
  \<comment> \<open>the provider lists one day twice\<close>
  "repeating_provider t s e attempt =
     Inr \<lparr>schema = history_schema,
          rows = [quote 738886 10 12 9 11 1000, quote 738886 10 12 9 11 1000]\<rparr>"

definition steady_provider :: provider where
  \<comment> \<open>two clean days for the ticker \<open>GOOD\<close>, one day listed twice for any other\<close>
  "steady_provider t s e attempt =
     (if t = ''GOOD''
      then Inr \<lparr>schema = history_schema,
                rows = [quote 738886 10 12 9 11 1000, quote 738887 11 13 10 12 2000]\<rparr>
      else repeating_provider t s e attempt)"

definition caught_up_provider :: provider where
  \<comment> \<open>two clean days in a window that starts at the default start date, nothing newer\<close>
  "caught_up_provider t s e attempt =
     (if s = ''2019-11-05''
      then Inr \<lparr>schema = history_schema,
                rows = [quote 738886 10 12 9 11 1000, quote 738887 11 13 10 12 2000]\<rparr>
      else Inr \<lparr>schema = history_schema, rows = []\<rparr>)"


definition example_env :: "provider \<Rightarrow> env" where
  "example_env yf =
     \<lparr>yfinance = yf, strftime = iso_date, connect_outcome = ConnectOk, insert_time = (\<lambda>t. 1)\<rparr>"

definition example_settings :: settings where
  "example_settings = (default_settings ''2019-11-05'' ''2024-11-03'')\<lparr>min_data_points := 2\<rparr>"

definition example_downloader :: downloader where
  "example_downloader = new_downloader example_settings None None"

definition fresh_storage :: storage where
  \<comment> \<open>the storage of a new pipeline on an empty database\<close>
  "fresh_storage = \<lparr>conn = False, table = []\<rparr>"

section \<open>Verified properties\<close>

subsection \<open>Validator\<close>

lemma fl_ge_not_lt: "fl_ge a b \<Longrightarrow> \<not> fl_lt a b"
  by (cases a; cases b) auto

lemma fl_ge_not_NaN: "fl_ge a b \<Longrightarrow> a \<noteq> NaN"
  by (cases a) auto

lemma vol_ge_not_lt: "vol_ge v n \<Longrightarrow> \<not> vol_lt v n"
  by (auto simp: vol_ge_def vol_lt_def split: option.splits)

lemma vol_ge_not_None: "vol_ge v n \<Longrightarrow> v \<noteq> None"
  by (auto simp: vol_ge_def split: option.splits)

lemma validate_schema_flag: "validate_schema df = (v, es) \<Longrightarrow> v = (es = [])"
  by (cases df; cases "df_empty (the df)") (auto simp: validate_schema_def Let_def)

lemma schema_errors_Nil:
  assumes "schema_errors d = []"
  shows "set required_columns \<subseteq> set (columns d)"
    and "\<not> dtype_fails d Date (\<lambda>t. \<not> to_datetime_raises t)"
proof -
  from assms have m: "filter (\<lambda>c. c \<notin> set (columns d)) required_columns = []"
    and dt: "\<not> dtype_fails d Date (\<lambda>t. \<not> to_datetime_raises t)"
    by (auto simp: schema_errors_def Let_def split: if_splits)
  from m show "set required_columns \<subseteq> set (columns d)"
    by (auto simp: filter_empty_conv)
  from dt show "\<not> dtype_fails d Date (\<lambda>t. \<not> to_datetime_raises t)" .
qed

lemma validate_data_quality_flag:
  "validate_data_quality s df = Inr (v, ws) \<Longrightarrow> v = (ws = [])"
  by (cases df) (auto simp: validate_data_quality_def Let_def split: if_splits)

lemma validate_data_quality_returns:
  assumes "set required_columns \<subseteq> set (columns d)"
    and "\<not> dtype_fails d Date (\<lambda>t. \<not> to_datetime_raises t)"
  shows "\<exists>v ws. validate_data_quality s (Some d) = Inr (v, ws)"
  using assms by (auto simp: validate_data_quality_def Let_def)

text \<open>
  Claim C4. For every DataFrame handed to \<open>validate\<close>, the call returns a triple
  \<open>(valid, schema_errors, quality_warnings)\<close>, and \<open>valid\<close> is true exactly when both lists
  are empty: a schema error or a quality warning forces \<open>valid = False\<close>.
\<close>

theorem validate_valid_iff:
  "\<exists>valid es ws. validate s (Some d) = Inr (valid, es, ws) \<and> (valid \<longleftrightarrow> es = [] \<and> ws = [])"
proof (cases "df_empty d")
  case True
  then have "validate s (Some d) = Inr (False, [EmptyFrame], [SkippedQuality])"
    by (simp add: validate_def validate_schema_def)
  then show ?thesis by auto
next
  case ne: False
  show ?thesis
  proof (cases "schema_errors d = []")
    case True
    from schema_errors_Nil [OF True] obtain v ws
      where q: "validate_data_quality s (Some d) = Inr (v, ws)"
      using validate_data_quality_returns by blast
    from validate_data_quality_flag [OF q] have v: "v = (ws = [])" .
    from ne True q have "validate s (Some d) = Inr (v, [], ws)"
      by (simp add: validate_def validate_schema_def)
    with v show ?thesis by auto
  next
    case False
    with ne have "validate s (Some d) = Inr (False, schema_errors d, [SkippedQuality])"
      by (simp add: validate_def validate_schema_def)
    with False show ?thesis by auto
  qed
qed

lemma validate_None: "validate s None = Inl AttributeError"
  by (simp add: validate_def validate_schema_def)

lemma schema_drop_negative: "schema (drop_negative c d) = schema d"
  by (simp add: drop_negative_def keep_rows_def)

lemma rows_drop_negative:
  "rows (drop_negative c d) =
     filter (\<lambda>r. c \<in> set (columns d) \<longrightarrow> fl_ge (price c r) (Fin 0)) (rows d)"
  by (simp add: drop_negative_def keep_rows_def)

lemma schema_fold_drop_negative: "schema (fold drop_negative cs d) = schema d"
  by (induction cs arbitrary: d) (simp_all add: schema_drop_negative)

lemma rows_fold_drop_negative:
  "rows (fold drop_negative cs d) =
     filter (\<lambda>r. \<forall>c\<in>set cs. c \<in> set (columns d) \<longrightarrow> fl_ge (price c r) (Fin 0)) (rows d)"
proof (induction cs arbitrary: d)
  case Nil
  show ?case by simp
next
  case (Cons c cs)
  have "columns (drop_negative c d) = columns d"
    by (simp add: columns_def schema_drop_negative)
  with Cons [of "drop_negative c d"] show ?case
    by (simp add: rows_drop_negative)
qed

lemma filter_invalid_rows_result:
  assumes "\<not> df_empty d" and "filter_invalid_rows (Some d) = Inr (Some d')"
  shows "schema d' = schema d"
    and "rows d' = filter (\<lambda>r.
            (\<forall>c\<in>set price_cols. c \<in> set (columns d) \<longrightarrow> fl_ge (price c r) (Fin 0))
          \<and> (Volume \<in> set (columns d) \<longrightarrow> vol_ge (volume r) 0)
          \<and> (High \<in> set (columns d) \<and> Low \<in> set (columns d) \<longrightarrow> fl_ge (high r) (low r))
          \<and> ticker r \<noteq> None \<and> date r \<noteq> None \<and> close r \<noteq> NaN) (rows d)"
    and "{Ticker, Date, Close} \<subseteq> set (columns d)"
  using assms
  by (auto simp: filter_invalid_rows_def Let_def keep_rows_def columns_def
        schema_fold_drop_negative rows_fold_drop_negative
        split: if_splits intro!: filter_cong)

lemma filter_invalid_rows_returns:
  assumes "{Ticker, Date, Close} \<subseteq> set (columns d)"
  shows "\<exists>d'. filter_invalid_rows (Some d) = Inr (Some d')"
  using assms
  by (simp add: filter_invalid_rows_def Let_def keep_rows_def columns_def
        schema_fold_drop_negative)

text \<open>
  The theorem at two concrete inputs: a one-row frame passes when one row is enough, and
  the same frame draws a warning, hence \<open>valid = False\<close>, under the default minimum of 10.
\<close>

theorem validate_valid_iff_witness:
  "validate ((default_settings ''2019-11-05'' ''2024-11-03'')\<lparr>min_data_points := 1\<rparr>)
      (Some \<lparr>schema = pricebar_schema, rows = [bar ''AAPL'' 738886 10 12 9 11 1000]\<rparr>)
     = Inr (True, [], [])
   \<and> validate (default_settings ''2019-11-05'' ''2024-11-03'')
      (Some \<lparr>schema = pricebar_schema, rows = [bar ''AAPL'' 738886 10 12 9 11 1000]\<rparr>)
     = Inr (False, [], [InsufficientData 1 10])"
  using validate_valid_iff [of "((default_settings ''2019-11-05'' ''2024-11-03'')\<lparr>min_data_points := 1\<rparr>)"
      "\<lparr>schema = pricebar_schema, rows = [bar ''AAPL'' 738886 10 12 9 11 1000]\<rparr>"]
  by (simp add: validate_def validate_schema_def validate_data_quality_def schema_errors_def
      df_empty_def pricebar_schema_def bar_def default_settings_def columns_def
      required_columns_def price_cols_def dtype_fails_def is_string_dtype_def
      is_numeric_dtype_def to_datetime_raises_def check_min_points_def
      check_negative_prices_def check_negative_volume_def check_high_low_def
      check_missing_def check_duplicates_def check_gaps_def count_rows_def
      duplicated_count_def large_gaps_def key_def vol_lt_def)

lemma filter_invalid_rows_only_bad:
  "filter_invalid_rows
      (Some \<lparr>schema = pricebar_schema, rows = [bar ''X'' 738886 10 12 9 11 (- 5)]\<rparr>)
   = Inr (Some \<lparr>schema = pricebar_schema, rows = []\<rparr>)"
  by (simp add: filter_invalid_rows_def df_empty_def pricebar_schema_def bar_def columns_def
      price_cols_def drop_negative_def keep_rows_def vol_ge_def)

text \<open>
  Claim C5. On a frame that has the required columns, \<open>filter_invalid_rows\<close> returns the
  frame restricted to the rows that pass every removal test, whatever warnings the quality
  pass produced (the function sees the frame only). No surviving row has a negative price
  cell, a negative volume, \<open>high < low\<close>, or a null \<open>ticker\<close>, \<open>date\<close> or \<open>close\<close>. The result
  may be empty although the input was not.
\<close>

theorem filter_invalid_rows_sound:
  assumes "set required_columns \<subseteq> set (columns d)"
  shows "(\<exists>d'. filter_invalid_rows (Some d) = Inr (Some d')
           \<and> schema d' = schema d
           \<and> rows d' = filter (\<lambda>r.
                 fl_ge (open_col r) (Fin 0) \<and> fl_ge (high r) (Fin 0) \<and> fl_ge (low r) (Fin 0)
               \<and> fl_ge (close r) (Fin 0) \<and> fl_ge (adj_close r) (Fin 0)
               \<and> vol_ge (volume r) 0 \<and> fl_ge (high r) (low r)
               \<and> ticker r \<noteq> None \<and> date r \<noteq> None \<and> close r \<noteq> NaN) (rows d)
           \<and> (\<forall>r\<in>set (rows d').
                 \<not> fl_lt (open_col r) (Fin 0) \<and> \<not> fl_lt (high r) (Fin 0)
               \<and> \<not> fl_lt (low r) (Fin 0) \<and> \<not> fl_lt (close r) (Fin 0)
               \<and> \<not> fl_lt (adj_close r) (Fin 0) \<and> \<not> vol_lt (volume r) 0
               \<and> \<not> fl_lt (high r) (low r)
               \<and> ticker r \<noteq> None \<and> date r \<noteq> None \<and> close r \<noteq> NaN))
       \<and> (\<exists>d0. set required_columns \<subseteq> set (columns d0) \<and> rows d0 \<noteq> []
           \<and> (\<exists>d'. filter_invalid_rows (Some d0) = Inr (Some d') \<and> rows d' = []))"
proof -
  let ?ok = "\<lambda>r. fl_ge (open_col r) (Fin 0) \<and> fl_ge (high r) (Fin 0) \<and> fl_ge (low r) (Fin 0)
               \<and> fl_ge (close r) (Fin 0) \<and> fl_ge (adj_close r) (Fin 0)
               \<and> vol_ge (volume r) 0 \<and> fl_ge (high r) (low r)
               \<and> ticker r \<noteq> None \<and> date r \<noteq> None \<and> close r \<noteq> NaN"
  from assms have cols: "{Ticker, Date, Close} \<subseteq> set (columns d)"
    and all: "Open \<in> set (columns d)" "High \<in> set (columns d)" "Low \<in> set (columns d)"
      "Close \<in> set (columns d)" "Adj_Close \<in> set (columns d)" "Volume \<in> set (columns d)"
    by (auto simp: required_columns_def)
  from filter_invalid_rows_returns [OF cols] obtain d'
    where d': "filter_invalid_rows (Some d) = Inr (Some d')" by blast
  have sch: "schema d' = schema d" and rws: "rows d' = filter ?ok (rows d)"
  proof -
    show "schema d' = schema d"
    proof (cases "df_empty d")
      case True
      with d' show ?thesis by (simp add: filter_invalid_rows_def)
    next
      case False
      from filter_invalid_rows_result(1) [OF False d'] show ?thesis .
    qed
    show "rows d' = filter ?ok (rows d)"
    proof (cases "df_empty d")
      case True
      with d' have "d' = d" by (simp add: filter_invalid_rows_def)
      moreover from True all have "rows d = []"
        by (auto simp: df_empty_def columns_def)
      ultimately show ?thesis by simp
    next
      case False
      from filter_invalid_rows_result(2) [OF False d'] all show ?thesis
        by (auto simp: price_cols_def intro!: filter_cong)
    qed
  qed
  have "\<forall>r\<in>set (rows d'). \<not> fl_lt (open_col r) (Fin 0) \<and> \<not> fl_lt (high r) (Fin 0)
               \<and> \<not> fl_lt (low r) (Fin 0) \<and> \<not> fl_lt (close r) (Fin 0)
               \<and> \<not> fl_lt (adj_close r) (Fin 0) \<and> \<not> vol_lt (volume r) 0
               \<and> \<not> fl_lt (high r) (low r)
               \<and> ticker r \<noteq> None \<and> date r \<noteq> None \<and> close r \<noteq> NaN"
    unfolding rws by (simp add: fl_ge_not_lt vol_ge_not_lt)
  with d' sch rws
  have main: "\<exists>d'. filter_invalid_rows (Some d) = Inr (Some d')
           \<and> schema d' = schema d
           \<and> rows d' = filter ?ok (rows d)
           \<and> (\<forall>r\<in>set (rows d').
                 \<not> fl_lt (open_col r) (Fin 0) \<and> \<not> fl_lt (high r) (Fin 0)
               \<and> \<not> fl_lt (low r) (Fin 0) \<and> \<not> fl_lt (close r) (Fin 0)
               \<and> \<not> fl_lt (adj_close r) (Fin 0) \<and> \<not> vol_lt (volume r) 0
               \<and> \<not> fl_lt (high r) (low r)
               \<and> ticker r \<noteq> None \<and> date r \<noteq> None \<and> close r \<noteq> NaN)"
    by blast
  have "set required_columns
          \<subseteq> set (columns \<lparr>schema = pricebar_schema, rows = [bar ''X'' 738886 10 12 9 11 (- 5)]\<rparr>)"
    by (simp add: required_columns_def columns_def pricebar_schema_def)
  with filter_invalid_rows_only_bad
  have "\<exists>d0. set required_columns \<subseteq> set (columns d0) \<and> rows d0 \<noteq> []
           \<and> (\<exists>d'. filter_invalid_rows (Some d0) = Inr (Some d') \<and> rows d' = [])"
    by (intro exI [of _ "\<lparr>schema = pricebar_schema, rows = [bar ''X'' 738886 10 12 9 11 (- 5)]\<rparr>"])
       simp
  with main show ?thesis by blast
qed

text \<open>
  The theorem at a frame of four rows, of which three fail one test each.
\<close>

theorem filter_invalid_rows_sound_witness:
  "set required_columns
     \<subseteq> set (columns \<lparr>schema = pricebar_schema,
          rows = [bar ''X'' 738886 10 12 9 11 1000, bar ''X'' 738887 10 12 9 11 (- 5),
                  bar ''X'' 738888 10 9 12 11 1000, bar ''X'' 738889 (- 1) 12 9 11 1000]\<rparr>)
   \<and> filter_invalid_rows (Some \<lparr>schema = pricebar_schema,
          rows = [bar ''X'' 738886 10 12 9 11 1000, bar ''X'' 738887 10 12 9 11 (- 5),
                  bar ''X'' 738888 10 9 12 11 1000, bar ''X'' 738889 (- 1) 12 9 11 1000]\<rparr>)
     = Inr (Some \<lparr>schema = pricebar_schema, rows = [bar ''X'' 738886 10 12 9 11 1000]\<rparr>)"
proof -
  let ?F = "\<lparr>schema = pricebar_schema,
          rows = [bar ''X'' 738886 10 12 9 11 1000, bar ''X'' 738887 10 12 9 11 (- 5),
                  bar ''X'' 738888 10 9 12 11 1000, bar ''X'' 738889 (- 1) 12 9 11 1000]\<rparr>"
  have h: "set required_columns \<subseteq> set (columns ?F)"
    by (simp add: required_columns_def columns_def pricebar_schema_def)
  from filter_invalid_rows_sound [OF h] obtain d'
    where "filter_invalid_rows (Some ?F) = Inr (Some d')" and "schema d' = schema ?F"
      and "rows d' = filter (\<lambda>r.
                 fl_ge (open_col r) (Fin 0) \<and> fl_ge (high r) (Fin 0) \<and> fl_ge (low r) (Fin 0)
               \<and> fl_ge (close r) (Fin 0) \<and> fl_ge (adj_close r) (Fin 0)
               \<and> vol_ge (volume r) 0 \<and> fl_ge (high r) (low r)
               \<and> ticker r \<noteq> None \<and> date r \<noteq> None \<and> close r \<noteq> NaN) (rows ?F)"
    by blast
  then have "filter_invalid_rows (Some ?F)
     = Inr (Some \<lparr>schema = pricebar_schema, rows = [bar ''X'' 738886 10 12 9 11 1000]\<rparr>)"
    by (cases d') (simp add: bar_def vol_ge_def)
  with h show ?thesis by simp
qed

text \<open>
  Claim C10. On a frame that has the price and volume columns, every row that
  \<open>filter_invalid_rows\<close> keeps is a row of the input with no NaN in \<open>open\<close>, \<open>high\<close>, \<open>low\<close>,
  \<open>close\<close>, \<open>adj_close\<close> and no missing \<open>volume\<close>: a row with a null in any of the six is
  removed by the test \<open>>= 0\<close>, which is false on NaN, also when its \<open>ticker\<close>, \<open>date\<close> and
  \<open>close\<close> are present.
\<close>

theorem filter_invalid_rows_drops_nulls:
  assumes "set price_cols \<subseteq> set (columns d)" and "Volume \<in> set (columns d)"
    and "filter_invalid_rows (Some d) = Inr (Some d')"
  shows "(\<forall>r\<in>set (rows d'). r \<in> set (rows d)
            \<and> open_col r \<noteq> NaN \<and> high r \<noteq> NaN \<and> low r \<noteq> NaN \<and> close r \<noteq> NaN
            \<and> adj_close r \<noteq> NaN \<and> volume r \<noteq> None)
       \<and> (\<forall>r\<in>set (rows d).
             open_col r = NaN \<or> high r = NaN \<or> low r = NaN \<or> close r = NaN
             \<or> adj_close r = NaN \<or> volume r = None
             \<longrightarrow> r \<notin> set (rows d'))"
proof (cases "df_empty d")
  case True
  with assms(3) have "d' = d" by (simp add: filter_invalid_rows_def)
  moreover from True assms(2) have "rows d = []"
    by (auto simp: df_empty_def columns_def)
  ultimately show ?thesis by simp
next
  case False
  from filter_invalid_rows_result(2) [OF False assms(3)] assms(1,2)
  have keep: "\<And>r. r \<in> set (rows d') \<Longrightarrow> r \<in> set (rows d)
       \<and> fl_ge (open_col r) (Fin 0) \<and> fl_ge (high r) (Fin 0) \<and> fl_ge (low r) (Fin 0)
       \<and> fl_ge (close r) (Fin 0) \<and> fl_ge (adj_close r) (Fin 0) \<and> vol_ge (volume r) 0"
    by (auto simp: price_cols_def)
  have a: "\<forall>r\<in>set (rows d'). r \<in> set (rows d)
            \<and> open_col r \<noteq> NaN \<and> high r \<noteq> NaN \<and> low r \<noteq> NaN \<and> close r \<noteq> NaN
            \<and> adj_close r \<noteq> NaN \<and> volume r \<noteq> None"
    using keep fl_ge_not_NaN vol_ge_not_None by blast
  then show ?thesis by blast
qed

text \<open>
  The theorem at a frame whose second row lacks only its \<open>open\<close>.
\<close>

theorem filter_invalid_rows_drops_nulls_witness:
  "set price_cols
     \<subseteq> set (columns \<lparr>schema = pricebar_schema,
          rows = [bar ''X'' 738886 10 12 9 11 1000,
                  (bar ''X'' 738887 10 12 9 11 1000)\<lparr>open_col := NaN\<rparr>]\<rparr>)
   \<and> Volume \<in> set (columns \<lparr>schema = pricebar_schema,
          rows = [bar ''X'' 738886 10 12 9 11 1000,
                  (bar ''X'' 738887 10 12 9 11 1000)\<lparr>open_col := NaN\<rparr>]\<rparr>)
   \<and> filter_invalid_rows (Some \<lparr>schema = pricebar_schema,
          rows = [bar ''X'' 738886 10 12 9 11 1000,
                  (bar ''X'' 738887 10 12 9 11 1000)\<lparr>open_col := NaN\<rparr>]\<rparr>)
     = Inr (Some \<lparr>schema = pricebar_schema, rows = [bar ''X'' 738886 10 12 9 11 1000]\<rparr>)
   \<and> (bar ''X'' 738887 10 12 9 11 1000)\<lparr>open_col := NaN\<rparr>
       \<notin> set (rows \<lparr>schema = pricebar_schema, rows = [bar ''X'' 738886 10 12 9 11 1000]\<rparr>)"
proof -
  let ?bad = "(bar ''X'' 738887 10 12 9 11 1000)\<lparr>open_col := NaN\<rparr>"
  let ?F = "\<lparr>schema = pricebar_schema, rows = [bar ''X'' 738886 10 12 9 11 1000, ?bad]\<rparr>"
  let ?F' = "\<lparr>schema = pricebar_schema, rows = [bar ''X'' 738886 10 12 9 11 1000]\<rparr>"
  have h1: "set price_cols \<subseteq> set (columns ?F)"
    by (simp add: price_cols_def columns_def pricebar_schema_def)
  have h2: "Volume \<in> set (columns ?F)"
    by (simp add: columns_def pricebar_schema_def)
  have h3: "filter_invalid_rows (Some ?F) = Inr (Some ?F')"
    by (simp add: filter_invalid_rows_def df_empty_def pricebar_schema_def bar_def columns_def
        price_cols_def drop_negative_def keep_rows_def vol_ge_def)
  from filter_invalid_rows_drops_nulls [OF h1 h2 h3]
  have "?bad \<notin> set (rows ?F')" by simp
  with h1 h2 h3 show ?thesis by blast
qed

subsection \<open>Storage\<close>

lemma fold_min_le: "y \<in> set (x # xs) \<Longrightarrow> fold min xs (x::int) \<le> y"
  by (simp only: Min.set_eq_fold [symmetric]) (rule Min_le, simp_all)

lemma fold_max_ge: "y \<in> set (x # xs) \<Longrightarrow> y \<le> fold max xs (x::int)"
  by (simp only: Max.set_eq_fold [symmetric]) (rule Max_ge, simp_all)

lemma date_values_mem: "r \<in> set rs \<Longrightarrow> date r = Some x \<Longrightarrow> x \<in> set (date_values rs)"
  by (force simp: date_values_def)

lemma date_span_covers:
  assumes "r \<in> set (rows d)" and "date r = Some x"
  shows "\<exists>lo hi. date_min d = Some lo \<and> date_max d = Some hi \<and> lo \<le> x \<and> x \<le> hi"
proof -
  from date_values_mem [OF assms] have m: "x \<in> set (date_values (rows d))" .
  then obtain y ys where ds: "date_values (rows d) = y # ys"
    by (cases "date_values (rows d)") auto
  from m ds fold_min_le [of x y ys] fold_max_ge [of x y ys] show ?thesis
    by (simp add: date_min_def date_max_def)
qed

lemma in_span_own_row:
  assumes "r \<in> set (rows d)" and "ticker r = Some t" and "date r = Some x"
  shows "in_span (Some t) (date_min d) (date_max d) \<lparr>data = r, created_at = n\<rparr>"
  using date_span_covers [OF assms(1,3)] assms(2,3) by (auto simp: in_span_def)

lemma not_violates_keys:
  assumes "\<not> violates tbl rs" and "r \<in> set rs"
  shows "ticker r \<noteq> None" and "date r \<noteq> None"
  using assms by (auto simp: violates_def)

lemma date_max_None: "date_max d = None \<longleftrightarrow> date_min d = None"
  by (simp add: date_min_def date_max_def split: list.splits)

lemma upsert_data_run:
  assumes "\<not> df_empty d" and "Ticker \<in> set (columns d)" and "Date \<in> set (columns d)"
    and "conn st" and "date_min d \<noteq> None"
  shows "upsert_data now (Some d) st =
     (if \<not> set required_columns \<subseteq> set (columns d)
      then (Inl BinderException,
            st\<lparr>table := filter (\<lambda>s. \<not> in_span (ticker (hd (rows d))) (date_min d) (date_max d) s)
                          (table st)\<rparr>)
      else if \<not> list_all (\<lambda>r. fits_bigint (volume r)) (rows d)
      then (Inl ConversionException,
            st\<lparr>table := filter (\<lambda>s. \<not> in_span (ticker (hd (rows d))) (date_min d) (date_max d) s)
                          (table st)\<rparr>)
      else if violates (filter (\<lambda>s. \<not> in_span (ticker (hd (rows d))) (date_min d) (date_max d) s)
                          (table st)) (rows d)
      then (Inl ConstraintException,
            st\<lparr>table := filter (\<lambda>s. \<not> in_span (ticker (hd (rows d))) (date_min d) (date_max d) s)
                          (table st)\<rparr>)
      else (Inr (length (rows d)),
            st\<lparr>table := filter (\<lambda>s. \<not> in_span (ticker (hd (rows d))) (date_min d) (date_max d) s)
                          (table st)
                        @ map (\<lambda>r. \<lparr>data = r, created_at = now\<rparr>) (rows d)\<rparr>))"
  using assms by (cases "date_min d") (simp_all add: upsert_data_def Let_def date_max_None)

lemma upsert_data_no_run:
  assumes "df_empty d \<or> Ticker \<notin> set (columns d) \<or> Date \<notin> set (columns d) \<or> \<not> conn st
           \<or> date_min d = None"
  shows "snd (upsert_data now (Some d) st) = st"
    and "fst (upsert_data now (Some d) st) = fst (upsert_data now' (Some d) st')
         \<or> conn st \<noteq> conn st'"
  using assms by (auto simp: upsert_data_def Let_def)

lemma conn_upsert_data: "conn (snd (upsert_data now df st)) = conn st"
  by (cases df) (auto simp: upsert_data_def Let_def)

lemma filter_own_rows:
  assumes "\<forall>r\<in>set rs. in_span t lo hi \<lparr>data = r, created_at = n\<rparr>"
  shows "filter (\<lambda>s. \<not> in_span t lo hi s) (map (\<lambda>r. \<lparr>data = r, created_at = n\<rparr>) rs) = []"
  using assms by (induction rs) auto

lemma fst_upsert_data_time:
  "fst (upsert_data now df st) = fst (upsert_data now' df st)"
  by (cases df) (auto simp: upsert_data_def Let_def)

lemma in_span_key: "key (data s) = key (data s') \<Longrightarrow> in_span t lo hi s = in_span t lo hi s'"
  by (simp add: in_span_def key_def)

lemma single_no_conflict:
  assumes "\<forall>r\<in>set (rows d). ticker r = Some t" and "r \<in> set (rows d)" and "date r \<noteq> None"
  shows "key r \<notin> set (map (\<lambda>s. key (data s))
           (filter (\<lambda>s. \<not> in_span (Some t) (date_min d) (date_max d) s) tbl))"
proof
  assume "key r \<in> set (map (\<lambda>s. key (data s))
           (filter (\<lambda>s. \<not> in_span (Some t) (date_min d) (date_max d) s) tbl))"
  then obtain s where s: "s \<in> set tbl" "\<not> in_span (Some t) (date_min d) (date_max d) s"
    and k: "key r = key (data s)" by auto
  from assms obtain x where x: "date r = Some x" and tk: "ticker r = Some t" by auto
  from in_span_own_row [OF assms(2) tk x]
  have "in_span (Some t) (date_min d) (date_max d) \<lparr>data = r, created_at = 0\<rparr>" .
  moreover from k have "key (data \<lparr>data = r, created_at = 0\<rparr>) = key (data s)" by simp
  ultimately have "in_span (Some t) (date_min d) (date_max d) s"
    using in_span_key by blast
  with s show False by simp
qed

lemma violates_single:
  assumes "\<forall>r\<in>set (rows d). ticker r = Some t"
  shows "violates (filter (\<lambda>s. \<not> in_span (Some t) (date_min d) (date_max d) s) tbl) (rows d)
         \<longleftrightarrow> (\<exists>r\<in>set (rows d). date r = None) \<or> \<not> distinct (map key (rows d))"
proof -
  define K where "K = set (map (\<lambda>s. key (data s))
           (filter (\<lambda>s. \<not> in_span (Some t) (date_min d) (date_max d) s) tbl))"
  have a: "\<And>r. r \<in> set (rows d) \<Longrightarrow> ticker r \<noteq> None" using assms by auto
  have b: "\<And>r. r \<in> set (rows d) \<Longrightarrow> key r \<in> K \<Longrightarrow> date r = None"
    using single_no_conflict [OF assms, of _ tbl] unfolding K_def by blast
  have "((\<exists>r\<in>set (rows d). ticker r = None \<or> date r = None)
          \<or> \<not> distinct (map key (rows d)) \<or> (\<exists>r\<in>set (rows d). key r \<in> K))
        \<longleftrightarrow> (\<exists>r\<in>set (rows d). date r = None) \<or> \<not> distinct (map key (rows d))"
    using a b by blast
  then show ?thesis unfolding violates_def K_def .
qed

lemma kept_after_insert:
  assumes "\<forall>r\<in>set (rows d). ticker r = Some t" and "\<forall>r\<in>set (rows d). date r \<noteq> None"
  shows "filter (\<lambda>s. \<not> in_span (Some t) (date_min d) (date_max d) s)
           (filter (\<lambda>s. \<not> in_span (Some t) (date_min d) (date_max d) s) tbl
            @ map (\<lambda>r. \<lparr>data = r, created_at = n\<rparr>) (rows d))
         = filter (\<lambda>s. \<not> in_span (Some t) (date_min d) (date_max d) s) tbl"
proof -
  have "\<forall>r\<in>set (rows d). in_span (Some t) (date_min d) (date_max d) \<lparr>data = r, created_at = n\<rparr>"
    using assms in_span_own_row by fastforce
  from filter_own_rows [OF this] show ?thesis by simp
qed

lemma upsert_data_twice:
  assumes ne: "rows d \<noteq> []" and single: "\<forall>r\<in>set (rows d). ticker r = Some t"
  shows "upsert_data t2 (Some d) (snd (upsert_data t1 (Some d) st))
         = (fst (upsert_data t1 (Some d) st), snd (upsert_data t2 (Some d) st))"
    and "map data (table (snd (upsert_data t2 (Some d) st)))
         = map data (table (snd (upsert_data t1 (Some d) st)))"
proof -
  from ne single have hd: "ticker (hd (rows d)) = Some t" by (cases "rows d") auto
  let ?P = "\<lambda>s. \<not> in_span (Some t) (date_min d) (date_max d) s"
  let ?kept = "filter ?P (table st)"
  let ?goal1 = "upsert_data t2 (Some d) (snd (upsert_data t1 (Some d) st))
         = (fst (upsert_data t1 (Some d) st), snd (upsert_data t2 (Some d) st))"
  let ?goal2 = "map data (table (snd (upsert_data t2 (Some d) st)))
         = map data (table (snd (upsert_data t1 (Some d) st)))"
  have "?goal1 \<and> ?goal2"
  proof (cases "df_empty d \<or> Ticker \<notin> set (columns d) \<or> Date \<notin> set (columns d) \<or> \<not> conn st
                \<or> date_min d = None")
    case True
    from upsert_data_no_run(1) [OF True] have "\<And>n. snd (upsert_data n (Some d) st) = st" .
    then show ?thesis
      using fst_upsert_data_time [of t2 "Some d" st t1] by (simp add: prod_eq_iff)
  next
    case False
    then have g: "\<not> df_empty d" "Ticker \<in> set (columns d)" "Date \<in> set (columns d)" "conn st"
      and dm: "date_min d \<noteq> None"
      by auto
    have run: "upsert_data now (Some d) st' =
     (if \<not> set required_columns \<subseteq> set (columns d)
      then (Inl BinderException, st'\<lparr>table := filter ?P (table st')\<rparr>)
      else if \<not> list_all (\<lambda>r. fits_bigint (volume r)) (rows d)
      then (Inl ConversionException, st'\<lparr>table := filter ?P (table st')\<rparr>)
      else if violates (filter ?P (table st')) (rows d)
      then (Inl ConstraintException, st'\<lparr>table := filter ?P (table st')\<rparr>)
      else (Inr (length (rows d)),
            st'\<lparr>table := filter ?P (table st')
                        @ map (\<lambda>r. \<lparr>data = r, created_at = now\<rparr>) (rows d)\<rparr>))"
      if "conn st'" for st' now
      using upsert_data_run [OF g(1,2,3) that dm, unfolded hd] .
    show ?thesis
    proof (cases "set required_columns \<subseteq> set (columns d)
                  \<and> list_all (\<lambda>r. fits_bigint (volume r)) (rows d)
                  \<and> \<not> violates ?kept (rows d)")
      case ok: True
      then have dates: "\<forall>r\<in>set (rows d). date r \<noteq> None"
        by (auto simp: violates_def)
      have r1: "\<And>n. upsert_data n (Some d) st
          = (Inr (length (rows d)),
             st\<lparr>table := ?kept @ map (\<lambda>r. \<lparr>data = r, created_at = n\<rparr>) (rows d)\<rparr>)"
        using run [OF g(4)] ok by simp
      have "upsert_data t2 (Some d)
              (st\<lparr>table := ?kept @ map (\<lambda>r. \<lparr>data = r, created_at = t1\<rparr>) (rows d)\<rparr>)
          = (Inr (length (rows d)),
             st\<lparr>table := ?kept @ map (\<lambda>r. \<lparr>data = r, created_at = t2\<rparr>) (rows d)\<rparr>)"
        using run [of "st\<lparr>table := ?kept @ map (\<lambda>r. \<lparr>data = r, created_at = t1\<rparr>) (rows d)\<rparr>" t2]
          g(4) ok kept_after_insert [OF single dates, of "table st" t1]
        by simp
      then show ?thesis by (simp add: r1 comp_def)
    next
      case bad: False
      have idem: "filter ?P ?kept = ?kept" by simp
      have r1: "\<And>n. upsert_data n (Some d) st
          = (if \<not> set required_columns \<subseteq> set (columns d) then Inl BinderException
             else if \<not> list_all (\<lambda>r. fits_bigint (volume r)) (rows d)
             then Inl ConversionException
             else Inl ConstraintException, st\<lparr>table := ?kept\<rparr>)"
        using run [OF g(4)] bad by auto
      have "upsert_data t2 (Some d) (st\<lparr>table := ?kept\<rparr>)
          = (if \<not> set required_columns \<subseteq> set (columns d) then Inl BinderException
             else if \<not> list_all (\<lambda>r. fits_bigint (volume r)) (rows d)
             then Inl ConversionException
             else Inl ConstraintException, st\<lparr>table := ?kept\<rparr>)"
        using run [of "st\<lparr>table := ?kept\<rparr>" t2] g(4) bad by (auto simp: idem)
      then show ?thesis by (simp add: r1)
    qed
  qed
  then show ?goal1 and ?goal2 by blast+
qed

lemma date_min_Some:
  assumes "rows d \<noteq> []" and "\<forall>r\<in>set (rows d). date r \<noteq> None"
  shows "date_min d \<noteq> None"
proof -
  from assms obtain r x where "r \<in> set (rows d)" "date r = Some x"
    by (cases "rows d") auto
  from date_span_covers [OF this] show ?thesis by auto
qed

lemma upsert_data_succeeds:
  assumes "conn st" and "set required_columns \<subseteq> set (columns d)" and "rows d \<noteq> []"
    and single: "\<forall>r\<in>set (rows d). ticker r = Some t"
    and dates: "\<forall>r\<in>set (rows d). date r \<noteq> None" and "distinct (map key (rows d))"
    and fits: "\<forall>r\<in>set (rows d). fits_bigint (volume r)"
  shows "upsert_data now (Some d) st
     = (Inr (length (rows d)),
        st\<lparr>table := filter (\<lambda>s. \<not> in_span (Some t) (date_min d) (date_max d) s) (table st)
                    @ map (\<lambda>r. \<lparr>data = r, created_at = now\<rparr>) (rows d)\<rparr>)"
proof -
  from assms(3) single have hd: "ticker (hd (rows d)) = Some t" by (cases "rows d") auto
  from assms(2) have cols: "Ticker \<in> set (columns d)" "Date \<in> set (columns d)"
    by (auto simp: required_columns_def)
  with assms(3) have ne: "\<not> df_empty d" by (auto simp: df_empty_def columns_def)
  have "\<not> violates (filter (\<lambda>s. \<not> in_span (Some t) (date_min d) (date_max d) s) (table st))
          (rows d)"
    using violates_single [OF single, of "table st"] assms(5,6) by blast
  with upsert_data_run [OF ne cols assms(1) date_min_Some [OF assms(3) dates], unfolded hd, of now]
    assms(2) fits
  show ?thesis by (simp add: list_all_iff)
qed

text \<open>
  Claim C1 fails as stated. The rows a call stores carry the time of that call in
  \<open>created_at\<close>, so the store after the second call is not the store after the first: here
  the two rows of the set are stamped 1 after one call and 2 after two. And a call need not
  return a count: on a set with a volume beyond BIGINT the call deletes and then raises.
\<close>

theorem upsert_data_idempotent_counterexample:
  "upsert_data 1 (Some \<lparr>schema = pricebar_schema,
        rows = [bar ''AAPL'' 738886 10 12 9 11 1000, bar ''AAPL'' 738887 11 13 10 12 2000]\<rparr>)
     \<lparr>conn = True, table = []\<rparr>
   = (Inr 2,
      \<lparr>conn = True, table = [\<lparr>data = bar ''AAPL'' 738886 10 12 9 11 1000, created_at = 1\<rparr>,
                             \<lparr>data = bar ''AAPL'' 738887 11 13 10 12 2000, created_at = 1\<rparr>]\<rparr>)
   \<and> upsert_data 2 (Some \<lparr>schema = pricebar_schema,
        rows = [bar ''AAPL'' 738886 10 12 9 11 1000, bar ''AAPL'' 738887 11 13 10 12 2000]\<rparr>)
     \<lparr>conn = True, table = [\<lparr>data = bar ''AAPL'' 738886 10 12 9 11 1000, created_at = 1\<rparr>,
                            \<lparr>data = bar ''AAPL'' 738887 11 13 10 12 2000, created_at = 1\<rparr>]\<rparr>
   = (Inr 2,
      \<lparr>conn = True, table = [\<lparr>data = bar ''AAPL'' 738886 10 12 9 11 1000, created_at = 2\<rparr>,
                             \<lparr>data = bar ''AAPL'' 738887 11 13 10 12 2000, created_at = 2\<rparr>]\<rparr>)
   \<and> [\<lparr>data = bar ''AAPL'' 738886 10 12 9 11 1000, created_at = 2\<rparr>,
      \<lparr>data = bar ''AAPL'' 738887 11 13 10 12 2000, created_at = 2\<rparr>]
     \<noteq> [\<lparr>data = bar ''AAPL'' 738886 10 12 9 11 1000, created_at = 1\<rparr>,
        \<lparr>data = bar ''AAPL'' 738887 11 13 10 12 2000, created_at = 1\<rparr>]
   \<and> upsert_data 1 (Some \<lparr>schema = pricebar_schema,
        rows = [bar ''AAPL'' 738886 10 12 9 11 (2 ^ 63)]\<rparr>)
     \<lparr>conn = True, table = [\<lparr>data = bar ''AAPL'' 738886 1 2 1 1 5, created_at = 0\<rparr>]\<rparr>
   = (Inl ConversionException, \<lparr>conn = True, table = []\<rparr>)"
  by (simp add: upsert_data_def Let_def df_empty_def columns_def pricebar_schema_def
      required_columns_def date_min_def date_max_def date_values_def in_span_def
      violates_def key_def bar_def fits_bigint_def)

text \<open>
  Claim C1, amended. For a non-empty row set of one ticker, with distinct keys, a second
  \<open>upsert_data\<close> of the same rows returns or raises what the first did, and leaves the rows
  of the table as the first call left them, in number and in every PriceBar column; only
  \<open>created_at\<close> is refreshed, and the table is the one a single call, made at the time of
  the second, produces. When the connection is open and the frame has the required
  columns, no null date and no volume beyond BIGINT, the value returned is the number of
  rows of the set.
\<close>

theorem upsert_data_idempotent:
  assumes "rows d \<noteq> []" and "\<forall>r\<in>set (rows d). ticker r = Some t"
    and "distinct (map key (rows d))"
  shows "fst (upsert_data t2 (Some d) (snd (upsert_data t1 (Some d) st)))
           = fst (upsert_data t1 (Some d) st)
       \<and> map data (table (snd (upsert_data t2 (Some d) (snd (upsert_data t1 (Some d) st)))))
           = map data (table (snd (upsert_data t1 (Some d) st)))
       \<and> snd (upsert_data t2 (Some d) (snd (upsert_data t1 (Some d) st)))
           = snd (upsert_data t2 (Some d) st)
       \<and> (conn st \<and> set required_columns \<subseteq> set (columns d)
            \<and> (\<forall>r\<in>set (rows d). date r \<noteq> None)
            \<and> (\<forall>r\<in>set (rows d). fits_bigint (volume r))
          \<longrightarrow> fst (upsert_data t1 (Some d) st) = Inr (length (rows d))
            \<and> fst (upsert_data t2 (Some d) (snd (upsert_data t1 (Some d) st)))
                = Inr (length (rows d)))"
proof -
  note tw = upsert_data_twice [OF assms(1,2), where ?t2.0 = t2 and ?t1.0 = t1 and st = st]
  have "conn st \<and> set required_columns \<subseteq> set (columns d) \<and> (\<forall>r\<in>set (rows d). date r \<noteq> None)
          \<and> (\<forall>r\<in>set (rows d). fits_bigint (volume r))
          \<longrightarrow> fst (upsert_data t1 (Some d) st) = Inr (length (rows d))"
    using upsert_data_succeeds [OF _ _ assms(1,2) _ assms(3), where st = st and now = t1] by simp
  with tw show ?thesis by simp
qed

theorem upsert_data_idempotent_witness:
  "list_all (\<lambda>r. ticker r = Some ''AAPL'')
      [bar ''AAPL'' 738886 10 12 9 11 1000, bar ''AAPL'' 738887 11 13 10 12 2000]
   \<and> distinct (map key [bar ''AAPL'' 738886 10 12 9 11 1000, bar ''AAPL'' 738887 11 13 10 12 2000])
   \<and> upsert_data 1 (Some \<lparr>schema = pricebar_schema,
          rows = [bar ''AAPL'' 738886 10 12 9 11 1000, bar ''AAPL'' 738887 11 13 10 12 2000]\<rparr>)
        \<lparr>conn = True, table = [\<lparr>data = bar ''MSFT'' 738886 1 2 1 1 5, created_at = 0\<rparr>,
                               \<lparr>data = bar ''AAPL'' 738886 1 2 1 1 5, created_at = 0\<rparr>]\<rparr>
     = (Inr 2,
        \<lparr>conn = True, table = [\<lparr>data = bar ''MSFT'' 738886 1 2 1 1 5, created_at = 0\<rparr>,
                               \<lparr>data = bar ''AAPL'' 738886 10 12 9 11 1000, created_at = 1\<rparr>,
                               \<lparr>data = bar ''AAPL'' 738887 11 13 10 12 2000, created_at = 1\<rparr>]\<rparr>)
   \<and> upsert_data 2 (Some \<lparr>schema = pricebar_schema,
          rows = [bar ''AAPL'' 738886 10 12 9 11 1000, bar ''AAPL'' 738887 11 13 10 12 2000]\<rparr>)
        \<lparr>conn = True, table = [\<lparr>data = bar ''MSFT'' 738886 1 2 1 1 5, created_at = 0\<rparr>,
                               \<lparr>data = bar ''AAPL'' 738886 10 12 9 11 1000, created_at = 1\<rparr>,
                               \<lparr>data = bar ''AAPL'' 738887 11 13 10 12 2000, created_at = 1\<rparr>]\<rparr>
     = (Inr 2,
        \<lparr>conn = True, table = [\<lparr>data = bar ''MSFT'' 738886 1 2 1 1 5, created_at = 0\<rparr>,
                               \<lparr>data = bar ''AAPL'' 738886 10 12 9 11 1000, created_at = 2\<rparr>,
                               \<lparr>data = bar ''AAPL'' 738887 11 13 10 12 2000, created_at = 2\<rparr>]\<rparr>)"
proof -
  let ?rs = "[bar ''AAPL'' 738886 10 12 9 11 1000, bar ''AAPL'' 738887 11 13 10 12 2000]"
  let ?d = "\<lparr>schema = pricebar_schema, rows = ?rs\<rparr>"
  let ?st = "\<lparr>conn = True, table = [\<lparr>data = bar ''MSFT'' 738886 1 2 1 1 5, created_at = 0\<rparr>,
                               \<lparr>data = bar ''AAPL'' 738886 1 2 1 1 5, created_at = 0\<rparr>]\<rparr>"
  have h1: "rows ?d \<noteq> []" by simp
  have h2: "\<forall>r\<in>set (rows ?d). ticker r = Some ''AAPL''" by (simp add: bar_def)
  have h3: "distinct (map key (rows ?d))" by (simp add: bar_def key_def)
  have one: "upsert_data 1 (Some ?d) ?st
     = (Inr 2,
        \<lparr>conn = True, table = [\<lparr>data = bar ''MSFT'' 738886 1 2 1 1 5, created_at = 0\<rparr>,
                               \<lparr>data = bar ''AAPL'' 738886 10 12 9 11 1000, created_at = 1\<rparr>,
                               \<lparr>data = bar ''AAPL'' 738887 11 13 10 12 2000, created_at = 1\<rparr>]\<rparr>)"
    by (simp add: upsert_data_def Let_def df_empty_def columns_def pricebar_schema_def
        required_columns_def date_min_def date_max_def date_values_def in_span_def
        violates_def key_def bar_def fits_bigint_def)
  have two: "upsert_data 2 (Some ?d) ?st
     = (Inr 2,
        \<lparr>conn = True, table = [\<lparr>data = bar ''MSFT'' 738886 1 2 1 1 5, created_at = 0\<rparr>,
                               \<lparr>data = bar ''AAPL'' 738886 10 12 9 11 1000, created_at = 2\<rparr>,
                               \<lparr>data = bar ''AAPL'' 738887 11 13 10 12 2000, created_at = 2\<rparr>]\<rparr>)"
    by (simp add: upsert_data_def Let_def df_empty_def columns_def pricebar_schema_def
        required_columns_def date_min_def date_max_def date_values_def in_span_def
        violates_def key_def bar_def fits_bigint_def)
  from upsert_data_idempotent [OF h1 h2 h3, where ?t2.0 = 2 and ?t1.0 = 1 and st = ?st]
  have "upsert_data 2 (Some ?d) (snd (upsert_data 1 (Some ?d) ?st))
      = (fst (upsert_data 1 (Some ?d) ?st), snd (upsert_data 2 (Some ?d) ?st))"
    by (simp add: prod_eq_iff)
  with one two h2 h3 show ?thesis by (simp add: list_all_iff)
qed

text \<open>
  Claim C2 fails as stated on a row set that repeats a date: the delete runs, the insert
  breaks the primary key and adds nothing, and the call raises.
\<close>

theorem upsert_data_duplicate_counterexample:
  "upsert_data 2 (Some \<lparr>schema = pricebar_schema,
        rows = [bar ''X'' 738886 10 12 9 11 1000, bar ''X'' 738886 10 12 9 12 1000]\<rparr>)
     \<lparr>conn = True, table = [\<lparr>data = bar ''X'' 738886 1 2 1 1 5, created_at = 0\<rparr>]\<rparr>
   = (Inl ConstraintException, \<lparr>conn = True, table = []\<rparr>)"
  by (simp add: upsert_data_def Let_def df_empty_def columns_def pricebar_schema_def
      required_columns_def date_min_def date_max_def date_values_def in_span_def
      violates_def key_def bar_def fits_bigint_def)

lemma in_span_Some:
  "in_span (Some t) (Some lo) (Some hi) s
   \<longleftrightarrow> ticker (data s) = Some t \<and> (\<exists>x. date (data s) = Some x \<and> lo \<le> x \<and> x \<le> hi)"
  by (auto simp: in_span_def split: option.splits)

lemma date_bounds:
  assumes "rows d \<noteq> []" and "\<forall>r\<in>set (rows d). date r \<noteq> None"
  shows "\<exists>lo hi. date_min d = Some lo \<and> date_max d = Some hi
          \<and> lo \<in> set (date_values (rows d)) \<and> hi \<in> set (date_values (rows d))
          \<and> (\<forall>x\<in>set (date_values (rows d)). lo \<le> x \<and> x \<le> hi)"
proof -
  from assms obtain r x where "r \<in> set (rows d)" "date r = Some x"
    by (cases "rows d") auto
  from date_values_mem [OF this] obtain y ys where ds: "date_values (rows d) = y # ys"
    by (cases "date_values (rows d)") auto
  have "fold min ys y \<in> set (y # ys)"
    by (simp only: Min.set_eq_fold [symmetric]) (rule Min_in, simp_all)
  moreover have "fold max ys y \<in> set (y # ys)"
    by (simp only: Max.set_eq_fold [symmetric]) (rule Max_in, simp_all)
  ultimately show ?thesis
    using ds fold_min_le [of _ y ys] fold_max_ge [of _ y ys]
    by (simp add: date_min_def date_max_def)
qed

text \<open>
  Claim C2, amended. For a non-empty row set of one ticker whose dates are present and
  pairwise distinct and whose volumes are within BIGINT (open connection, required
  columns), \<open>upsert_data\<close> deletes the stored
  rows of that ticker dated within the closed span from the least to the greatest date of
  the set, and no other row, then appends every row of the set. A stored row of another
  ticker, or dated outside the span, stays as it is; nothing but the set's own least and
  greatest date decides the span.
\<close>

theorem upsert_data_span_replace:
  assumes "conn st" and "set required_columns \<subseteq> set (columns d)" and "rows d \<noteq> []"
    and "\<forall>r\<in>set (rows d). ticker r = Some t" and "\<forall>r\<in>set (rows d). date r \<noteq> None"
    and "distinct (map key (rows d))" and "\<forall>r\<in>set (rows d). fits_bigint (volume r)"
  shows "\<exists>lo hi. lo \<in> set (date_values (rows d)) \<and> hi \<in> set (date_values (rows d))
           \<and> (\<forall>x\<in>set (date_values (rows d)). lo \<le> x \<and> x \<le> hi)
           \<and> upsert_data now (Some d) st
               = (Inr (length (rows d)),
                  st\<lparr>table :=
                       filter (\<lambda>s. \<not> (ticker (data s) = Some t
                                      \<and> (\<exists>x. date (data s) = Some x \<and> lo \<le> x \<and> x \<le> hi)))
                              (table st)
                       @ map (\<lambda>r. \<lparr>data = r, created_at = now\<rparr>) (rows d)\<rparr>)
           \<and> (\<forall>s\<in>set (table st).
                 ticker (data s) \<noteq> Some t
                 \<or> (\<forall>x. date (data s) = Some x \<longrightarrow> x < lo \<or> hi < x)
                 \<longrightarrow> s \<in> set (table (snd (upsert_data now (Some d) st))))"
proof -
  from date_bounds [OF assms(3,5)] obtain lo hi
    where mn: "date_min d = Some lo" and mx: "date_max d = Some hi"
      and lo: "lo \<in> set (date_values (rows d))" and hi: "hi \<in> set (date_values (rows d))"
      and bd: "\<forall>x\<in>set (date_values (rows d)). lo \<le> x \<and> x \<le> hi"
    by blast
  let ?del = "\<lambda>s. ticker (data s) = Some t \<and> (\<exists>x. date (data s) = Some x \<and> lo \<le> x \<and> x \<le> hi)"
  have run: "upsert_data now (Some d) st
               = (Inr (length (rows d)),
                  st\<lparr>table := filter (\<lambda>s. \<not> ?del s) (table st)
                       @ map (\<lambda>r. \<lparr>data = r, created_at = now\<rparr>) (rows d)\<rparr>)"
    using upsert_data_succeeds [OF assms, where now = now] by (simp add: mn mx in_span_Some)
  have "\<forall>s\<in>set (table st).
          ticker (data s) \<noteq> Some t \<or> (\<forall>x. date (data s) = Some x \<longrightarrow> x < lo \<or> hi < x)
          \<longrightarrow> s \<in> set (table (snd (upsert_data now (Some d) st)))"
    unfolding run by auto
  with lo hi bd run show ?thesis by blast
qed

theorem upsert_data_span_replace_witness:
  "conn \<lparr>conn = True, table = [\<lparr>data = bar ''X'' 738880 1 2 1 1 5, created_at = 0\<rparr>,
                               \<lparr>data = bar ''X'' 738886 1 2 1 1 5, created_at = 0\<rparr>,
                               \<lparr>data = bar ''Y'' 738886 1 2 1 1 5, created_at = 0\<rparr>,
                               \<lparr>data = bar ''X'' 738890 1 2 1 1 5, created_at = 0\<rparr>]\<rparr>
   \<and> list_all (\<lambda>r. ticker r = Some ''X'' \<and> date r \<noteq> None \<and> fits_bigint (volume r))
        [bar ''X'' 738885 10 12 9 11 1000, bar ''X'' 738887 11 13 10 12 2000]
   \<and> distinct (map key [bar ''X'' 738885 10 12 9 11 1000, bar ''X'' 738887 11 13 10 12 2000])
   \<and> upsert_data 7 (Some \<lparr>schema = pricebar_schema,
          rows = [bar ''X'' 738885 10 12 9 11 1000, bar ''X'' 738887 11 13 10 12 2000]\<rparr>)
        \<lparr>conn = True, table = [\<lparr>data = bar ''X'' 738880 1 2 1 1 5, created_at = 0\<rparr>,
                               \<lparr>data = bar ''X'' 738886 1 2 1 1 5, created_at = 0\<rparr>,
                               \<lparr>data = bar ''Y'' 738886 1 2 1 1 5, created_at = 0\<rparr>,
                               \<lparr>data = bar ''X'' 738890 1 2 1 1 5, created_at = 0\<rparr>]\<rparr>
     = (Inr 2,
        \<lparr>conn = True, table = [\<lparr>data = bar ''X'' 738880 1 2 1 1 5, created_at = 0\<rparr>,
                               \<lparr>data = bar ''Y'' 738886 1 2 1 1 5, created_at = 0\<rparr>,
                               \<lparr>data = bar ''X'' 738890 1 2 1 1 5, created_at = 0\<rparr>,
                               \<lparr>data = bar ''X'' 738885 10 12 9 11 1000, created_at = 7\<rparr>,
                               \<lparr>data = bar ''X'' 738887 11 13 10 12 2000, created_at = 7\<rparr>]\<rparr>)"
proof -
  let ?rs = "[bar ''X'' 738885 10 12 9 11 1000, bar ''X'' 738887 11 13 10 12 2000]"
  let ?d = "\<lparr>schema = pricebar_schema, rows = ?rs\<rparr>"
  let ?st = "\<lparr>conn = True, table = [\<lparr>data = bar ''X'' 738880 1 2 1 1 5, created_at = 0\<rparr>,
                               \<lparr>data = bar ''X'' 738886 1 2 1 1 5, created_at = 0\<rparr>,
                               \<lparr>data = bar ''Y'' 738886 1 2 1 1 5, created_at = 0\<rparr>,
                               \<lparr>data = bar ''X'' 738890 1 2 1 1 5, created_at = 0\<rparr>]\<rparr>"
  have h1: "conn ?st" by simp
  have h2: "set required_columns \<subseteq> set (columns ?d)"
    by (simp add: required_columns_def columns_def pricebar_schema_def)
  have h3: "rows ?d \<noteq> []" by simp
  have h4: "\<forall>r\<in>set (rows ?d). ticker r = Some ''X''" by (simp add: bar_def)
  have h5: "\<forall>r\<in>set (rows ?d). date r \<noteq> None" by (simp add: bar_def)
  have h6: "distinct (map key (rows ?d))" by (simp add: bar_def key_def)
  have h7: "\<forall>r\<in>set (rows ?d). fits_bigint (volume r)" by (simp add: bar_def fits_bigint_def)
  from upsert_data_span_replace [OF h1 h2 h3 h4 h5 h6 h7, where now = 7]
  have f: "fst (upsert_data 7 (Some ?d) ?st) = Inr 2" by auto
  have s: "snd (upsert_data 7 (Some ?d) ?st)
     = \<lparr>conn = True, table = [\<lparr>data = bar ''X'' 738880 1 2 1 1 5, created_at = 0\<rparr>,
                               \<lparr>data = bar ''Y'' 738886 1 2 1 1 5, created_at = 0\<rparr>,
                               \<lparr>data = bar ''X'' 738890 1 2 1 1 5, created_at = 0\<rparr>,
                               \<lparr>data = bar ''X'' 738885 10 12 9 11 1000, created_at = 7\<rparr>,
                               \<lparr>data = bar ''X'' 738887 11 13 10 12 2000, created_at = 7\<rparr>]\<rparr>"
    by (simp add: upsert_data_def Let_def df_empty_def columns_def pricebar_schema_def
        required_columns_def date_min_def date_max_def date_values_def in_span_def
        violates_def key_def bar_def fits_bigint_def)
  from f s have "upsert_data 7 (Some ?d) ?st
     = (Inr 2, \<lparr>conn = True, table = [\<lparr>data = bar ''X'' 738880 1 2 1 1 5, created_at = 0\<rparr>,
                               \<lparr>data = bar ''Y'' 738886 1 2 1 1 5, created_at = 0\<rparr>,
                               \<lparr>data = bar ''X'' 738890 1 2 1 1 5, created_at = 0\<rparr>,
                               \<lparr>data = bar ''X'' 738885 10 12 9 11 1000, created_at = 7\<rparr>,
                               \<lparr>data = bar ''X'' 738887 11 13 10 12 2000, created_at = 7\<rparr>]\<rparr>)"
    by (simp add: prod_eq_iff)
  with h4 h5 h6 h7 show ?thesis by (simp add: list_all_iff)
qed

lemma upsert_data_Inr:
  assumes "fst (upsert_data now (Some d) st) = Inr n" and "\<not> df_empty d"
  shows "\<not> violates (filter (\<lambda>s. \<not> in_span (ticker (hd (rows d))) (date_min d) (date_max d) s)
                      (table st)) (rows d)"
    and "table (snd (upsert_data now (Some d) st))
         = filter (\<lambda>s. \<not> in_span (ticker (hd (rows d))) (date_min d) (date_max d) s) (table st)
           @ map (\<lambda>r. \<lparr>data = r, created_at = now\<rparr>) (rows d)"
    and "n = length (rows d)"
  using assms by (auto simp: upsert_data_def Let_def split: if_splits)

lemma table_upsert_data_cases:
  "table (snd (upsert_data now df st)) = table st
   \<or> (\<exists>d t lo hi. df = Some d
        \<and> table (snd (upsert_data now df st)) = filter (\<lambda>s. \<not> in_span t lo hi s) (table st))
   \<or> (\<exists>d n. df = Some d \<and> \<not> df_empty d \<and> fst (upsert_data now df st) = Inr n)"
  by (cases df) (auto simp: upsert_data_def Let_def)

lemma key_unique_filter: "key_unique tbl \<Longrightarrow> key_unique (filter P tbl)"
  by (simp add: key_unique_def distinct_map_filter)

lemma key_unique_insert:
  assumes "key_unique tbl" and "\<not> violates tbl rs"
  shows "key_unique (tbl @ map (\<lambda>r. \<lparr>data = r, created_at = now\<rparr>) rs)"
  using assms by (auto simp: key_unique_def violates_def comp_def)

lemma filter_key_stamped:
  assumes "distinct (map key rs)" and "r \<in> set rs"
  shows "filter (\<lambda>s. key (data s) = key r) (map (\<lambda>r. \<lparr>data = r, created_at = now\<rparr>) rs)
         = [\<lparr>data = r, created_at = now\<rparr>]"
  using assms
proof (induction rs)
  case Nil
  then show ?case by simp
next
  case (Cons a rs)
  show ?case
  proof (cases "a = r")
    case True
    have "key x \<noteq> key r" if x: "x \<in> set rs" for x
    proof
      assume e: "key x = key r"
      from x have "key x \<in> key ` set rs" by (rule imageI)
      with e True Cons.prems(1) show False by simp
    qed
    then have "filter (\<lambda>s. key (data s) = key r) (map (\<lambda>r. \<lparr>data = r, created_at = now\<rparr>) rs) = []"
      by (simp add: filter_empty_conv)
    with True show ?thesis by simp
  next
    case False
    with Cons.prems have "r \<in> set rs" and "key a \<noteq> key r" and "distinct (map key rs)"
      by auto
    with Cons.IH show ?thesis by simp
  qed
qed

lemma upsert_data_effect:
  assumes "key_unique (table st)"
  shows "key_unique (table (snd (upsert_data now df st)))
       \<and> (\<forall>d n. df = Some d \<and> \<not> df_empty d \<and> fst (upsert_data now df st) = Inr n
            \<longrightarrow> distinct (map key (rows d))
              \<and> (\<forall>r\<in>set (rows d).
                    filter (\<lambda>s. key (data s) = key r) (table (snd (upsert_data now df st)))
                    = [\<lparr>data = r, created_at = now\<rparr>]))"
proof -
  have succ: "distinct (map key (rows d))
      \<and> (\<forall>r\<in>set (rows d).
            filter (\<lambda>s. key (data s) = key r) (table (snd (upsert_data now (Some d) st)))
            = [\<lparr>data = r, created_at = now\<rparr>])
      \<and> key_unique (table (snd (upsert_data now (Some d) st)))"
    if ok: "fst (upsert_data now (Some d) st) = Inr n" and ne: "\<not> df_empty d" for d n
  proof -
    let ?kept = "filter (\<lambda>s. \<not> in_span (ticker (hd (rows d))) (date_min d) (date_max d) s)
                   (table st)"
    note nv = upsert_data_Inr(1) [OF ok ne] and tb = upsert_data_Inr(2) [OF ok ne]
    from nv have dist: "distinct (map key (rows d))"
      by (simp add: violates_def)
    have fresh: "key (data s) \<noteq> key r" if r: "r \<in> set (rows d)" and s: "s \<in> set ?kept" for r s
    proof
      assume e: "key (data s) = key r"
      from s have "key (data s) \<in> set (map (\<lambda>s. key (data s)) ?kept)"
        by (simp only: set_map) (rule imageI)
      with e have "key r \<in> set (map (\<lambda>s. key (data s)) ?kept)" by simp
      with nv r show False unfolding violates_def by blast
    qed
    have "filter (\<lambda>s. key (data s) = key r) (table (snd (upsert_data now (Some d) st)))
            = [\<lparr>data = r, created_at = now\<rparr>]" if r: "r \<in> set (rows d)" for r
    proof -
      from fresh [OF r] have "filter (\<lambda>s. key (data s) = key r) ?kept = []"
        by (simp only: filter_empty_conv) blast
      with filter_key_stamped [OF dist r, of now] show ?thesis
        unfolding tb by simp
    qed
    moreover have "key_unique (table (snd (upsert_data now (Some d) st)))"
      unfolding tb using key_unique_insert [OF key_unique_filter [OF assms] nv] .
    ultimately show ?thesis using dist by blast
  qed
  have "key_unique (table (snd (upsert_data now df st)))"
    using table_upsert_data_cases [of now df st] succ assms key_unique_filter [OF assms]
    by auto
  with succ show ?thesis by blast
qed

lemma bulk_upsert_key_unique:
  assumes "key_unique (table st)"
  shows "key_unique (table (snd (bulk_upsert now data_dict st)))"
proof -
  define F where "F = (\<lambda>(tk :: string, df) (results :: (string \<times> nat) list, st).
            case upsert_data now df st of
              (Inr n, st') \<Rightarrow> (results @ [(tk, n)], st')
            | (Inl e, st') \<Rightarrow> (results @ [(tk, 0)], st'))"
  have step: "key_unique (table (snd (F x (acc, st))))" if "key_unique (table st)" for x acc st
  proof -
    from upsert_data_effect [OF that, of now "snd x"]
    have "key_unique (table (snd (upsert_data now (snd x) st)))" by blast
    then show ?thesis
      by (cases x; cases "upsert_data now (snd x) st") (auto simp: F_def split: sum.splits)
  qed
  have "key_unique (table (snd (fold F data_dict (acc, st))))" if "key_unique (table st)" for acc st
    using that
  proof (induction data_dict arbitrary: acc st)
    case Nil
    then show ?case by simp
  next
    case (Cons x xs)
    obtain acc' st' where f: "F x (acc, st) = (acc', st')" by (cases "F x (acc, st)")
    from step [OF Cons.prems, of x acc] f have "key_unique (table st')" by simp
    from Cons.IH [OF this, of acc'] f show ?case by simp
  qed
  moreover have "bulk_upsert now data_dict st = fold F data_dict ([], st)"
    by (simp add: bulk_upsert_def F_def)
  ultimately show ?thesis using assms by simp
qed

text \<open>
  Claim C3. If the table has at most one row per (ticker, date), it still has after any
  call of \<open>upsert_data\<close> and of \<open>bulk_upsert\<close>, the two operations of the storage that write
  rows, whether the call returns or raises. After a call of \<open>upsert_data\<close> that returns a
  count, the input set had no duplicate key, and every key of the set is held by exactly
  one stored row, the row of the set stamped by this call: rows of the re-ingested span
  are replaced, not duplicated.
\<close>

theorem upsert_data_key_unique:
  assumes "key_unique (table st)"
  shows "key_unique (table (snd (upsert_data now df st)))
       \<and> key_unique (table (snd (bulk_upsert now data_dict st)))
       \<and> (\<forall>d n. df = Some d \<and> \<not> df_empty d \<and> fst (upsert_data now df st) = Inr n
            \<longrightarrow> distinct (map key (rows d))
              \<and> (\<forall>r\<in>set (rows d).
                    filter (\<lambda>s. key (data s) = key r) (table (snd (upsert_data now df st)))
                    = [\<lparr>data = r, created_at = now\<rparr>]))"
  using upsert_data_effect [OF assms, of now df] bulk_upsert_key_unique [OF assms, of now data_dict]
  by blast

theorem upsert_data_key_unique_witness:
  "key_unique [\<lparr>data = bar ''X'' 738886 1 2 1 1 5, created_at = 0\<rparr>,
               \<lparr>data = bar ''Y'' 738886 1 2 1 1 5, created_at = 0\<rparr>]
   \<and> upsert_data 3 (Some \<lparr>schema = pricebar_schema,
          rows = [bar ''X'' 738886 10 12 9 11 1000, bar ''X'' 738887 11 13 10 12 2000]\<rparr>)
        \<lparr>conn = True, table = [\<lparr>data = bar ''X'' 738886 1 2 1 1 5, created_at = 0\<rparr>,
                               \<lparr>data = bar ''Y'' 738886 1 2 1 1 5, created_at = 0\<rparr>]\<rparr>
     = (Inr 2,
        \<lparr>conn = True, table = [\<lparr>data = bar ''Y'' 738886 1 2 1 1 5, created_at = 0\<rparr>,
                               \<lparr>data = bar ''X'' 738886 10 12 9 11 1000, created_at = 3\<rparr>,
                               \<lparr>data = bar ''X'' 738887 11 13 10 12 2000, created_at = 3\<rparr>]\<rparr>)
   \<and> key_unique [\<lparr>data = bar ''Y'' 738886 1 2 1 1 5, created_at = 0\<rparr>,
                 \<lparr>data = bar ''X'' 738886 10 12 9 11 1000, created_at = 3\<rparr>,
                 \<lparr>data = bar ''X'' 738887 11 13 10 12 2000, created_at = 3\<rparr>]"
proof -
  let ?d = "\<lparr>schema = pricebar_schema,
          rows = [bar ''X'' 738886 10 12 9 11 1000, bar ''X'' 738887 11 13 10 12 2000]\<rparr>"
  let ?st = "\<lparr>conn = True, table = [\<lparr>data = bar ''X'' 738886 1 2 1 1 5, created_at = 0\<rparr>,
                               \<lparr>data = bar ''Y'' 738886 1 2 1 1 5, created_at = 0\<rparr>]\<rparr>"
  have h: "key_unique (table ?st)" by (simp add: key_unique_def key_def bar_def)
  have run: "upsert_data 3 (Some ?d) ?st
     = (Inr 2,
        \<lparr>conn = True, table = [\<lparr>data = bar ''Y'' 738886 1 2 1 1 5, created_at = 0\<rparr>,
                               \<lparr>data = bar ''X'' 738886 10 12 9 11 1000, created_at = 3\<rparr>,
                               \<lparr>data = bar ''X'' 738887 11 13 10 12 2000, created_at = 3\<rparr>]\<rparr>)"
    by (simp add: upsert_data_def Let_def df_empty_def columns_def pricebar_schema_def
        required_columns_def date_min_def date_max_def date_values_def in_span_def
        violates_def key_def bar_def fits_bigint_def)
  from upsert_data_key_unique [OF h, where now = 3 and df = "Some ?d"]
  have "key_unique (table (snd (upsert_data 3 (Some ?d) ?st)))" by blast
  with run h show ?thesis by simp
qed

subsection \<open>Downloader\<close>

lemma upto_0_2: "[0..(2::int)] = [0, 1, 2]"
  by (simp add: upto_rec1)

lemma sleep_None: "sleep secs = None \<longleftrightarrow> 0 \<le> secs \<and> secs \<le> 9223372036"
  by (auto simp: sleep_def)

lemma sleep_not_engine: "sleep secs = Some x \<Longrightarrow> \<not> is_engine_exn x"
  by (auto simp: sleep_def is_engine_exn_def split: if_splits)

lemma attempts_Some:
  "attempts dl body ks = Inr (Some d) \<Longrightarrow> \<exists>k\<in>set ks. body k = Inr (Some d)"
  by (induction ks) (auto split: sum.splits if_splits option.splits)

lemma attempts_Inl:
  "attempts dl body ks = Inl x \<Longrightarrow> sleep (dl_retry_delay dl) = Some x"
  by (induction ks) (auto split: sum.splits if_splits option.splits)

lemma attempts_all_raise:
  "sleep (dl_retry_delay dl) = None \<Longrightarrow> \<forall>k\<in>set ks. isl (body k)
   \<Longrightarrow> attempts dl body ks = Inr None"
  by (induction ks) (auto split: sum.splits)

lemma attempts_first_return:
  assumes "sleep (dl_retry_delay dl) = None"
    and "\<forall>j\<in>set pre. isl (body j) \<and> j < dl_max_retries dl - 1" and "body k = Inr r"
  shows "attempts dl body (pre @ k # post) = Inr r"
  using assms by (induction pre) (auto split: sum.splits)

lemma download_ticker_first_return:
  assumes sl: "sleep (dl_retry_delay dl) = None"
    and k: "0 \<le> k" "k < dl_max_retries dl"
    and before: "\<forall>j. 0 \<le> j \<and> j < k
           \<longrightarrow> isl (attempt_body yf t (str_or s (default_start_date cfg))
                                     (str_or e (default_end_date cfg)) j)"
    and at: "attempt_body yf t (str_or s (default_start_date cfg))
                               (str_or e (default_end_date cfg)) k = Inr r"
  shows "download_ticker cfg dl yf t s e = Inr r"
proof -
  let ?body = "attempt_body yf t (str_or s (default_start_date cfg))
                                 (str_or e (default_end_date cfg))"
  from k have sp: "[0..dl_max_retries dl - 1] = [0..k - 1] @ k # [k + 1..dl_max_retries dl - 1]"
    by (intro upto_split3) auto
  have pre: "\<forall>j\<in>set [0..k - 1]. isl (?body j) \<and> j < dl_max_retries dl - 1"
    using before k by auto
  have "attempts dl ?body ([0..k - 1] @ k # [k + 1..dl_max_retries dl - 1]) = Inr r"
    using sl pre at by (rule attempts_first_return)
  with sp show ?thesis by (simp add: download_ticker_def Let_def)
qed

lemma download_ticker_all_raise:
  assumes "sleep (dl_retry_delay dl) = None"
    and "\<forall>k. 0 \<le> k \<and> k < dl_max_retries dl
           \<longrightarrow> isl (attempt_body yf t (str_or s (default_start_date cfg))
                                     (str_or e (default_end_date cfg)) k)"
  shows "download_ticker cfg dl yf t s e = Inr None"
  using assms by (auto simp: download_ticker_def Let_def intro!: attempts_all_raise)

lemma download_ticker_sleep_raises:
  assumes "sleep (dl_retry_delay dl) = Some x" and "1 < dl_max_retries dl"
    and "isl (attempt_body yf t (str_or s (default_start_date cfg))
                                (str_or e (default_end_date cfg)) 0)"
  shows "download_ticker cfg dl yf t s e = Inl x"
proof -
  from assms(2) have "[0..dl_max_retries dl - 1] = 0 # [1..dl_max_retries dl - 1]"
    by (simp add: upto_rec1)
  with assms show ?thesis
    by (auto simp: download_ticker_def Let_def split: sum.splits)
qed

lemma download_ticker_Inl:
  "download_ticker cfg dl yf t s e = Inl x \<Longrightarrow> sleep (dl_retry_delay dl) = Some x"
  unfolding download_ticker_def Let_def by (rule attempts_Inl)

lemma process_ticker_no_data:
  assumes "fetch_window ev cfg inc sd ed st t = Inr (ws, we)"
    and "download_ticker cfg dl (yfinance ev) t (Some ws) (Some we) = Inr None"
  shows "process_ticker ev cfg dl inc sd ed vo t (res, st) = (None, no_data t res, st)"
  using assms by (simp add: process_ticker_def)

lemma example_downloader_simps:
  "dl_max_retries (new_downloader example_settings None None) = 3"
  "sleep (dl_retry_delay (new_downloader example_settings None None)) = None"
  by (simp_all add: new_downloader_def example_settings_def default_settings_def int_or_def
      sleep_def)

text \<open>
  Claim C7 fails as stated: with the default settings, a provider that answers with an
  empty frame and a provider whose every request fails give the same result of
  \<open>download_ticker\<close>, the value \<^verbatim>\<open>None\<close>.
\<close>

theorem download_ticker_empty_counterexample:
  "download_ticker example_settings (new_downloader example_settings None None)
      empty_provider ''AAPL'' None None = Inr None
   \<and> download_ticker example_settings (new_downloader example_settings None None)
      failing_provider ''AAPL'' None None = Inr None"
  by (simp add: download_ticker_def example_downloader_simps upto_0_2 attempt_body_def
      empty_provider_def failing_provider_def df_empty_def)

text \<open>
  Claim C7, amended. With a retry delay that \<^verbatim>\<open>time.sleep\<close> accepts, \<open>download_ticker\<close>
  returns \<^verbatim>\<open>None\<close> in both cases: when the first attempt that does not raise finds an empty
  frame (it returns at once and retries no more), and when every attempt of the call
  raises. The value returned does not tell the two apart, and the pipeline records
  "No data available" for the ticker whenever \<open>download_ticker\<close> returns \<^verbatim>\<open>None\<close>: the ticker
  is counted neither as processed nor as failed, and nothing is stored. With a delay
  that \<^verbatim>\<open>time.sleep\<close> rejects, its exception leaves \<open>download_ticker\<close> when the first attempt
  raises and is not the last.
\<close>

theorem download_ticker_empty_or_exhausted:
  "(sleep (dl_retry_delay dl) = None
      \<and> (\<exists>k df. 0 \<le> k \<and> k < dl_max_retries dl
            \<and> (\<forall>j. 0 \<le> j \<and> j < k
                  \<longrightarrow> isl (attempt_body yf t (str_or s (default_start_date cfg))
                                            (str_or e (default_end_date cfg)) j))
            \<and> yf t (str_or s (default_start_date cfg)) (str_or e (default_end_date cfg)) k
                = Inr df
            \<and> df_empty df)
     \<longrightarrow> download_ticker cfg dl yf t s e = Inr None)
   \<and> (sleep (dl_retry_delay dl) = None
      \<and> (\<forall>k. 0 \<le> k \<and> k < dl_max_retries dl
            \<longrightarrow> isl (attempt_body yf t (str_or s (default_start_date cfg))
                                      (str_or e (default_end_date cfg)) k))
     \<longrightarrow> download_ticker cfg dl yf t s e = Inr None)
   \<and> (\<forall>x. sleep (dl_retry_delay dl) = Some x \<and> 1 < dl_max_retries dl
          \<and> isl (attempt_body yf t (str_or s (default_start_date cfg))
                                  (str_or e (default_end_date cfg)) 0)
     \<longrightarrow> download_ticker cfg dl yf t s e = Inl x)
   \<and> (\<forall>ev inc sd ed st ws we vo res.
          fetch_window ev cfg inc sd ed st t = Inr (ws, we)
          \<and> download_ticker cfg dl (yfinance ev) t (Some ws) (Some we) = Inr None
        \<longrightarrow> process_ticker ev cfg dl inc sd ed vo t (res, st)
              = (None, res\<lparr>warnings := warnings res @ [NoDataAvailable t]\<rparr>, st)
          \<and> step_ticker ev cfg dl inc sd ed vo t (res, st)
              = (res\<lparr>warnings := warnings res @ [NoDataAvailable t]\<rparr>, st))"
proof (intro conjI impI allI)
  assume a: "sleep (dl_retry_delay dl) = None
      \<and> (\<exists>k df. 0 \<le> k \<and> k < dl_max_retries dl
            \<and> (\<forall>j. 0 \<le> j \<and> j < k
                  \<longrightarrow> isl (attempt_body yf t (str_or s (default_start_date cfg))
                                            (str_or e (default_end_date cfg)) j))
            \<and> yf t (str_or s (default_start_date cfg)) (str_or e (default_end_date cfg)) k
                = Inr df
            \<and> df_empty df)"
  then have sl: "sleep (dl_retry_delay dl) = None" by simp
  from a obtain k df where k: "0 \<le> k" "k < dl_max_retries dl"
    and before: "\<forall>j. 0 \<le> j \<and> j < k
              \<longrightarrow> isl (attempt_body yf t (str_or s (default_start_date cfg))
                                        (str_or e (default_end_date cfg)) j)"
    and df: "yf t (str_or s (default_start_date cfg)) (str_or e (default_end_date cfg)) k = Inr df"
      "df_empty df"
    by blast
  from df have "attempt_body yf t (str_or s (default_start_date cfg))
                                  (str_or e (default_end_date cfg)) k = Inr None"
    by (simp add: attempt_body_def)
  from download_ticker_first_return [OF sl k before this]
  show "download_ticker cfg dl yf t s e = Inr None" .
next
  assume "sleep (dl_retry_delay dl) = None
      \<and> (\<forall>k. 0 \<le> k \<and> k < dl_max_retries dl
            \<longrightarrow> isl (attempt_body yf t (str_or s (default_start_date cfg))
                                      (str_or e (default_end_date cfg)) k))"
  then show "download_ticker cfg dl yf t s e = Inr None"
    using download_ticker_all_raise by blast
next
  fix x
  assume "sleep (dl_retry_delay dl) = Some x \<and> 1 < dl_max_retries dl
          \<and> isl (attempt_body yf t (str_or s (default_start_date cfg))
                                  (str_or e (default_end_date cfg)) 0)"
  then show "download_ticker cfg dl yf t s e = Inl x"
    using download_ticker_sleep_raises by blast
next
  fix ev inc sd ed st ws we vo res
  assume a: "fetch_window ev cfg inc sd ed st t = Inr (ws, we)
          \<and> download_ticker cfg dl (yfinance ev) t (Some ws) (Some we) = Inr None"
  then have p: "process_ticker ev cfg dl inc sd ed vo t (res, st) = (None, no_data t res, st)"
    using process_ticker_no_data by blast
  then show "process_ticker ev cfg dl inc sd ed vo t (res, st)
              = (None, res\<lparr>warnings := warnings res @ [NoDataAvailable t]\<rparr>, st)"
    by (simp add: no_data_def)
  from p show "step_ticker ev cfg dl inc sd ed vo t (res, st)
              = (res\<lparr>warnings := warnings res @ [NoDataAvailable t]\<rparr>, st)"
    by (simp add: step_ticker_def no_data_def)
qed

text \<open>
  The theorem on the two providers, with the default settings, and on a downloader whose
  retry delay is negative.
\<close>

theorem download_ticker_empty_or_exhausted_witness:
  "download_ticker example_settings (new_downloader example_settings None None)
       empty_provider ''AAPL'' (Some ''2019-11-05'') (Some ''2024-11-03'') = Inr None
   \<and> download_ticker example_settings (new_downloader example_settings None None)
       failing_provider ''AAPL'' (Some ''2019-11-05'') (Some ''2024-11-03'') = Inr None
   \<and> step_ticker (example_env empty_provider) example_settings
       (new_downloader example_settings None None) True None None False ''AAPL''
       (initial_results, \<lparr>conn = True, table = []\<rparr>)
     = (initial_results\<lparr>warnings := [NoDataAvailable ''AAPL'']\<rparr>, \<lparr>conn = True, table = []\<rparr>)
   \<and> step_ticker (example_env failing_provider) example_settings
       (new_downloader example_settings None None) True None None False ''AAPL''
       (initial_results, \<lparr>conn = True, table = []\<rparr>)
     = (initial_results\<lparr>warnings := [NoDataAvailable ''AAPL'']\<rparr>, \<lparr>conn = True, table = []\<rparr>)
   \<and> download_ticker example_settings (new_downloader example_settings None (Some (- 1)))
       failing_provider ''AAPL'' (Some ''2019-11-05'') (Some ''2024-11-03'') = Inl ValueError"
proof -
  let ?dl = "new_downloader example_settings None None"
  let ?bad = "new_downloader example_settings None (Some (- 1))"
  let ?st = "\<lparr>conn = True, table = []\<rparr>"
  have e: "empty_provider ''AAPL'' ''2019-11-05'' ''2024-11-03'' 0
     = Inr \<lparr>schema = history_schema, rows = []\<rparr>"
    by (simp add: empty_provider_def)
  have emp: "df_empty \<lparr>schema = history_schema, rows = []\<rparr>"
    by (simp add: df_empty_def)
  have f: "\<And>k. isl (attempt_body failing_provider ''AAPL'' ''2019-11-05'' ''2024-11-03'' k)"
    by (simp add: attempt_body_def failing_provider_def)
  have bad: "sleep (dl_retry_delay ?bad) = Some ValueError" "1 < dl_max_retries ?bad"
    by (simp_all add: new_downloader_def example_settings_def default_settings_def int_or_def
        sleep_def)
  have w: "fetch_window (example_env yf) example_settings True None None ?st ''AAPL''
      = Inr (''2019-11-05'', ''2024-11-03'')" for yf
    by (simp add: fetch_window_def truthy_def str_or_def get_last_date_def date_values_def
        example_settings_def default_settings_def)
  have y: "yfinance (example_env yf) = yf" for yf
    by (simp add: example_env_def)
  note inst = download_ticker_empty_or_exhausted
    [where cfg = example_settings and t = "''AAPL''"
       and s = "Some ''2019-11-05''" and e = "Some ''2024-11-03''"]
  have 1: "download_ticker example_settings ?dl empty_provider ''AAPL''
          (Some ''2019-11-05'') (Some ''2024-11-03'') = Inr None"
    using inst [where yf = empty_provider and dl = ?dl] e emp example_downloader_simps
    by (auto simp: str_or_def)
  have 2: "download_ticker example_settings ?dl failing_provider ''AAPL''
          (Some ''2019-11-05'') (Some ''2024-11-03'') = Inr None"
    using inst [where yf = failing_provider and dl = ?dl] f example_downloader_simps
    by (simp add: str_or_def)
  have 3: "step_ticker (example_env empty_provider) example_settings ?dl True None None False
       ''AAPL'' (initial_results, ?st)
     = (initial_results\<lparr>warnings := warnings initial_results @ [NoDataAvailable ''AAPL'']\<rparr>, ?st)"
    using inst [where yf = empty_provider and dl = ?dl] w [of empty_provider] 1
    by (simp add: y)
  have 4: "step_ticker (example_env failing_provider) example_settings ?dl True None None False
       ''AAPL'' (initial_results, ?st)
     = (initial_results\<lparr>warnings := warnings initial_results @ [NoDataAvailable ''AAPL'']\<rparr>, ?st)"
    using inst [where yf = failing_provider and dl = ?dl] w [of failing_provider] 2
    by (simp add: y)
  have 5: "download_ticker example_settings ?bad failing_provider ''AAPL''
          (Some ''2019-11-05'') (Some ''2024-11-03'') = Inl ValueError"
    using inst [where yf = failing_provider and dl = ?bad] f bad
    by (simp add: str_or_def)
  from 1 2 3 4 5 show ?thesis by (simp add: initial_results_def)
qed

subsection \<open>Fetch window\<close>






lemma fetch_window_end:
  "fetch_window ev cfg inc start_date end_date st t = Inr (ws, we)
   \<Longrightarrow> we = str_or end_date (default_end_date cfg)"
  by (auto simp: fetch_window_def Let_def split: if_splits sum.splits option.splits)

lemma fetch_window_raises:
  "fetch_window ev cfg inc start_date end_date st t = Inl x
   \<Longrightarrow> (x = AttributeError \<or> x = OverflowError) \<and> \<not> is_engine_exn x"
  by (auto simp: fetch_window_def Let_def get_last_date_def next_day_def is_engine_exn_def
        split: if_splits sum.splits option.splits list.splits)


subsection \<open>Pipeline\<close>

lemma normalize_Inr:
  assumes "normalize t raw = Inr df"
  shows "\<forall>r\<in>set (rows df). ticker r = Some t" and "columns df = required_columns"
    and "rows df = map (\<lambda>r. r\<lparr>ticker := Some t\<rparr>) (rows raw)"
  using assms by (auto simp: normalize_def Let_def columns_def comp_def split: if_splits)

lemma download_ticker_Some:
  assumes "download_ticker cfg dl yf t s e = Inr (Some df)"
  shows "\<forall>r\<in>set (rows df). ticker r = Some t" and "columns df = required_columns"
    and "\<exists>k raw. yf t (str_or s (default_start_date cfg)) (str_or e (default_end_date cfg)) k
                   = Inr raw
                 \<and> rows df = map (\<lambda>r. r\<lparr>ticker := Some t\<rparr>) (rows raw)"
proof -
  from assms obtain k where "attempt_body yf t (str_or s (default_start_date cfg))
      (str_or e (default_end_date cfg)) k = Inr (Some df)"
    unfolding download_ticker_def Let_def using attempts_Some by blast
  then obtain raw where n: "normalize t raw = Inr df"
    and y: "yf t (str_or s (default_start_date cfg)) (str_or e (default_end_date cfg)) k = Inr raw"
    by (auto simp: attempt_body_def split: sum.splits if_splits)
  from normalize_Inr [OF n]
  show "\<forall>r\<in>set (rows df). ticker r = Some t" and "columns df = required_columns" by auto
  from normalize_Inr(3) [OF n] y
  show "\<exists>k raw. yf t (str_or s (default_start_date cfg)) (str_or e (default_end_date cfg)) k
                   = Inr raw
                 \<and> rows df = map (\<lambda>r. r\<lparr>ticker := Some t\<rparr>) (rows raw)"
    by blast
qed

lemma validate_Some:
  "\<exists>v es ws. validate cfg (Some df) = Inr (v, es, ws)
      \<and> (es = [] \<longrightarrow> \<not> df_empty df \<and> set required_columns \<subseteq> set (columns df))"
proof (cases "df_empty df")
  case True
  then have "validate cfg (Some df) = Inr (False, [EmptyFrame], [SkippedQuality])"
    by (simp add: validate_def validate_schema_def)
  then show ?thesis by auto
next
  case ne: False
  show ?thesis
  proof (cases "schema_errors df = []")
    case True
    from schema_errors_Nil [OF True] obtain v ws
      where q: "validate_data_quality cfg (Some df) = Inr (v, ws)"
      using validate_data_quality_returns by blast
    from ne True q have "validate cfg (Some df) = Inr (v, [], ws)"
      by (simp add: validate_def validate_schema_def)
    with ne schema_errors_Nil(1) [OF True] show ?thesis by auto
  next
    case False
    with ne have "validate cfg (Some df) = Inr (False, schema_errors df, [SkippedQuality])"
      by (simp add: validate_def validate_schema_def)
    with False show ?thesis by auto
  qed
qed

lemma filter_invalid_rows_Some:
  assumes "set required_columns \<subseteq> set (columns df)"
  shows "\<exists>df'. filter_invalid_rows (Some df) = Inr (Some df')
           \<and> set (rows df') \<subseteq> set (rows df) \<and> columns df' = columns df"
proof -
  from assms have "{Ticker, Date, Close} \<subseteq> set (columns df)"
    by (auto simp: required_columns_def)
  from filter_invalid_rows_returns [OF this] obtain df'
    where f: "filter_invalid_rows (Some df) = Inr (Some df')" by blast
  have "set (rows df') \<subseteq> set (rows df) \<and> columns df' = columns df"
  proof (cases "df_empty df")
    case True
    with f show ?thesis by (simp add: filter_invalid_rows_def)
  next
    case False
    from filter_invalid_rows_result(1,2) [OF False f] show ?thesis
      by (auto simp: columns_def)
  qed
  with f show ?thesis by blast
qed

lemma process_ticker_cases [case_names raise skip schema filtered store]:
  fixes w :: "string \<times> string"
  obtains
    (raise) x where "\<not> is_engine_exn x"
      and "\<forall>vo res st. fetch_window ev cfg inc s e st t = Inr w
        \<longrightarrow> process_ticker ev cfg dl inc s e vo t (res, st) = (Some x, res, st)"
  | (skip) "\<forall>vo res st. fetch_window ev cfg inc s e st t = Inr w
        \<longrightarrow> process_ticker ev cfg dl inc s e vo t (res, st) = (None, no_data t res, st)"
  | (schema) errs where "\<forall>vo res st. fetch_window ev cfg inc s e st t = Inr w
        \<longrightarrow> process_ticker ev cfg dl inc s e vo t (res, st)
            = (None, fail_with (SchemaValidationFailed t errs) res, st)"
  | (filtered) qw where "\<forall>vo res st. fetch_window ev cfg inc s e st t = Inr w
        \<longrightarrow> process_ticker ev cfg dl inc s e vo t (res, st)
            = (None, fail_with (AllRowsFiltered t)
                       (res\<lparr>warnings := warnings res @ [DataQualityWarnings t qw]\<rparr>), st)"
  | (store) wl df' where "\<forall>r\<in>set (rows df'). ticker r = Some t" and "\<not> df_empty df'"
      and "filter is_no_data wl = []"
      and "\<forall>res st. fetch_window ev cfg inc s e st t = Inr w
        \<longrightarrow> process_ticker ev cfg dl inc s e True t (res, st)
            = (None, res\<lparr>warnings := warnings res @ wl,
                         tickers_processed := tickers_processed res + 1\<rparr>, st)"
      and "\<forall>res st. fetch_window ev cfg inc s e st t = Inr w
        \<longrightarrow> process_ticker ev cfg dl inc s e False t (res, st)
            = (case upsert_data (insert_time ev t) (Some df') st of
                 (Inl x, st') \<Rightarrow> (Some x, res\<lparr>warnings := warnings res @ wl\<rparr>, st')
               | (Inr n, st') \<Rightarrow>
                   (None, res\<lparr>warnings := warnings res @ wl,
                              total_rows_inserted := total_rows_inserted res + n,
                              tickers_processed := tickers_processed res + 1\<rparr>, st'))"
      and "set required_columns \<subseteq> set (columns df')"
      and "\<exists>k raw. yfinance ev t (str_or (Some (fst w)) (default_start_date cfg))
                                  (str_or (Some (snd w)) (default_end_date cfg)) k = Inr raw
                   \<and> set (rows df') \<subseteq> set (map (\<lambda>r. r\<lparr>ticker := Some t\<rparr>) (rows raw))"
proof -
  obtain ws we where w: "w = (ws, we)" by (cases w)
  show thesis
  proof (cases "download_ticker cfg dl (yfinance ev) t (Some ws) (Some we)")
    case (Inl x)
    from download_ticker_Inl [OF Inl] have "\<not> is_engine_exn x" by (rule sleep_not_engine)
    with Inl show thesis by (intro raise [of x]) (simp_all add: process_ticker_def w)
  next
    case (Inr result)
    show thesis
    proof (cases result)
      case None
      with Inr show thesis by (intro skip) (simp add: process_ticker_def w)
    next
      case (Some df)
      with Inr have D: "download_ticker cfg dl (yfinance ev) t (Some ws) (Some we) = Inr (Some df)"
        by simp
      show thesis
      proof (cases "df_empty df")
        case True
        with D show thesis by (intro skip) (simp add: process_ticker_def w)
      next
        case ne: False
        from download_ticker_Some(1) [OF D] have tk: "\<forall>r\<in>set (rows df). ticker r = Some t" .
        from download_ticker_Some(2) [OF D] have cols: "set required_columns \<subseteq> set (columns df)"
          by simp
        from download_ticker_Some(3) [OF D] obtain k raw
          where raw: "yfinance ev t (str_or (Some ws) (default_start_date cfg))
                         (str_or (Some we) (default_end_date cfg)) k = Inr raw"
            and rws: "rows df = map (\<lambda>r. r\<lparr>ticker := Some t\<rparr>) (rows raw)"
          by blast
        from validate_Some [of cfg df] obtain v es qw
          where val: "validate cfg (Some df) = Inr (v, es, qw)"
          by blast
        show thesis
        proof (cases "es = []")
          case False
          with D ne val show thesis
            by (intro schema [of es]) (simp add: process_ticker_def w)
        next
          case es: True
          show thesis
          proof (cases "qw = []")
            case True
            show thesis
            proof (rule store [of df "[]"])
              show "\<forall>r\<in>set (rows df). ticker r = Some t" by (rule tk)
              show "\<not> df_empty df" by (rule ne)
              show "filter is_no_data [] = []" by simp
              show "\<forall>res st. fetch_window ev cfg inc s e st t = Inr w
                \<longrightarrow> process_ticker ev cfg dl inc s e True t (res, st)
                    = (None, res\<lparr>warnings := warnings res @ [],
                                 tickers_processed := tickers_processed res + 1\<rparr>, st)"
                using D ne val es True by (simp add: process_ticker_def w)
              show "\<forall>res st. fetch_window ev cfg inc s e st t = Inr w
                \<longrightarrow> process_ticker ev cfg dl inc s e False t (res, st)
                    = (case upsert_data (insert_time ev t) (Some df) st of
                         (Inl x, st') \<Rightarrow> (Some x, res\<lparr>warnings := warnings res @ []\<rparr>, st')
                       | (Inr n, st') \<Rightarrow>
                           (None, res\<lparr>warnings := warnings res @ [],
                                      total_rows_inserted := total_rows_inserted res + n,
                                      tickers_processed := tickers_processed res + 1\<rparr>, st'))"
                using D ne val es True
                by (simp add: process_ticker_def w Let_def cong: prod.case_cong sum.case_cong)
              show "set required_columns \<subseteq> set (columns df)" by (rule cols)
              show "\<exists>k raw. yfinance ev t (str_or (Some (fst w)) (default_start_date cfg))
                                  (str_or (Some (snd w)) (default_end_date cfg)) k = Inr raw
                   \<and> set (rows df) \<subseteq> set (map (\<lambda>r. r\<lparr>ticker := Some t\<rparr>) (rows raw))"
                using raw rws unfolding w by auto
            qed
          next
            case qw: False
            from filter_invalid_rows_Some [OF cols] obtain df'
              where f: "filter_invalid_rows (Some df) = Inr (Some df')"
                and sub: "set (rows df') \<subseteq> set (rows df)"
                and cols': "columns df' = columns df"
              by blast
            show thesis
            proof (cases "df_empty df'")
              case True
              with D ne val es qw f show thesis
                by (intro filtered [of qw]) (simp add: process_ticker_def w)
            next
              case ne': False
              show thesis
              proof (rule store [of df' "[DataQualityWarnings t qw]"])
                show "\<forall>r\<in>set (rows df'). ticker r = Some t" using tk sub by blast
                show "\<not> df_empty df'" by (rule ne')
                show "filter is_no_data [DataQualityWarnings t qw] = []" by simp
                show "\<forall>res st. fetch_window ev cfg inc s e st t = Inr w
                  \<longrightarrow> process_ticker ev cfg dl inc s e True t (res, st)
                      = (None, res\<lparr>warnings := warnings res @ [DataQualityWarnings t qw],
                                   tickers_processed := tickers_processed res + 1\<rparr>, st)"
                  using D ne val es qw f ne' by (simp add: process_ticker_def w)
                show "\<forall>res st. fetch_window ev cfg inc s e st t = Inr w
                  \<longrightarrow> process_ticker ev cfg dl inc s e False t (res, st)
                      = (case upsert_data (insert_time ev t) (Some df') st of
                           (Inl x, st') \<Rightarrow>
                             (Some x, res\<lparr>warnings := warnings res @ [DataQualityWarnings t qw]\<rparr>,
                              st')
                         | (Inr n, st') \<Rightarrow>
                             (None, res\<lparr>warnings := warnings res @ [DataQualityWarnings t qw],
                                        total_rows_inserted := total_rows_inserted res + n,
                                        tickers_processed := tickers_processed res + 1\<rparr>, st'))"
                  using D ne val es qw f ne'
                  by (simp add: process_ticker_def w Let_def cong: prod.case_cong sum.case_cong)
                show "set required_columns \<subseteq> set (columns df')" using cols cols' by simp
                show "\<exists>k raw. yfinance ev t (str_or (Some (fst w)) (default_start_date cfg))
                                    (str_or (Some (snd w)) (default_end_date cfg)) k = Inr raw
                     \<and> set (rows df') \<subseteq> set (map (\<lambda>r. r\<lparr>ticker := Some t\<rparr>) (rows raw))"
                  using raw rws sub unfolding w by auto
              qed
            qed
          qed
        qed
      qed
    qed
  qed
qed

lemma fetch_window_Inl:
  "fetch_window ev cfg inc s e st t = Inl x
   \<Longrightarrow> process_ticker ev cfg dl inc s e vo t (res, st) = (Some x, res, st)"
  by (simp add: process_ticker_def)

text \<open>One iteration of the loop: what it does to the report and to the connection.\<close>

lemma step_ticker_report:
  assumes "step_ticker ev cfg dl inc s e vo t (res, st) = (res', st')"
  shows "tickers_processed res' + tickers_failed res' + skipped res'
           = Suc (tickers_processed res + tickers_failed res + skipped res)"
    and "length (errors res') + tickers_failed res = length (errors res) + tickers_failed res'"
    and "\<exists>es. errors res' = errors res @ es \<and> (\<forall>x. PipelineFatalError x \<notin> set es)"
    and "conn st' = conn st"
    and "duration_recorded res' = duration_recorded res"
proof -
  let ?goal = "\<lambda>res' st'. tickers_processed res' + tickers_failed res' + skipped res'
           = Suc (tickers_processed res + tickers_failed res + skipped res)
    \<and> length (errors res') + tickers_failed res = length (errors res) + tickers_failed res'
    \<and> (\<exists>es. errors res' = errors res @ es \<and> (\<forall>x. PipelineFatalError x \<notin> set es))
    \<and> conn st' = conn st
    \<and> duration_recorded res' = duration_recorded res"
  have "?goal res' st'"
  proof (cases "fetch_window ev cfg inc s e st t")
    case (Inl x)
    from fetch_window_Inl [OF Inl] assms show ?thesis
      by (auto simp: step_ticker_def fail_with_def skipped_def)
  next
    case (Inr w)
    show ?thesis
    proof (cases rule: process_ticker_cases [of ev cfg inc s e t w dl])
      case (raise x)
      with Inr assms show ?thesis
        by (auto simp: step_ticker_def fail_with_def skipped_def)
    next
      case skip
      with Inr assms show ?thesis
        by (auto simp: step_ticker_def skipped_def no_data_def)
    next
      case (schema errs)
      with Inr assms show ?thesis
        by (auto simp: step_ticker_def skipped_def fail_with_def)
    next
      case (filtered qw)
      with Inr assms show ?thesis
        by (auto simp: step_ticker_def skipped_def fail_with_def)
    next
      case (store wl df')
      have sk: "skipped (res\<lparr>warnings := warnings res @ wl\<rparr>) = skipped res"
        using store(3) by (simp add: skipped_def)
      show ?thesis
      proof (cases vo)
        case True
        with store(4) Inr assms have "res' = res\<lparr>warnings := warnings res @ wl,
                         tickers_processed := tickers_processed res + 1\<rparr>" and "st' = st"
          by (auto simp: step_ticker_def)
        with sk show ?thesis by (simp add: skipped_def)
      next
        case False
        obtain r st2 where u: "upsert_data (insert_time ev t) (Some df') st = (r, st2)"
          by (cases "upsert_data (insert_time ev t) (Some df') st")
        from conn_upsert_data [of "insert_time ev t" "Some df'" st] u
        have c: "conn st2 = conn st" by simp
        show ?thesis
        proof (cases r)
          case (Inl x)
          with store(5) Inr assms False u
          have "res' = fail_with (PipelineError t x) (res\<lparr>warnings := warnings res @ wl\<rparr>)"
            and "st' = st2"
            by (auto simp: step_ticker_def)
          with sk c show ?thesis by (simp add: skipped_def fail_with_def)
        next
          case (Inr n)
          with store(5) \<open>fetch_window ev cfg inc s e st t = Inr w\<close> assms False u
          have "res' = res\<lparr>warnings := warnings res @ wl,
                              total_rows_inserted := total_rows_inserted res + n,
                              tickers_processed := tickers_processed res + 1\<rparr>"
            and "st' = st2"
            by (auto simp: step_ticker_def)
          with sk c show ?thesis by (simp add: skipped_def)
        qed
      qed
    qed
  qed
  then show "tickers_processed res' + tickers_failed res' + skipped res'
           = Suc (tickers_processed res + tickers_failed res + skipped res)"
    and "length (errors res') + tickers_failed res = length (errors res) + tickers_failed res'"
    and "\<exists>es. errors res' = errors res @ es \<and> (\<forall>x. PipelineFatalError x \<notin> set es)"
    and "conn st' = conn st"
    and "duration_recorded res' = duration_recorded res"
    by blast+
qed

lemma run_tickers_simps:
  "run_tickers ev cfg dl inc s e vo [] rs = rs"
  "run_tickers ev cfg dl inc s e vo (t # ts) rs
     = run_tickers ev cfg dl inc s e vo ts (step_ticker ev cfg dl inc s e vo t rs)"
  "run_tickers ev cfg dl inc s e vo (ts @ ts') rs
     = run_tickers ev cfg dl inc s e vo ts' (run_tickers ev cfg dl inc s e vo ts rs)"
  by (simp_all add: run_tickers_def)

lemma run_tickers_report:
  assumes "run_tickers ev cfg dl inc s e vo ts (res, st) = (res', st')"
  shows "tickers_processed res' + tickers_failed res' + skipped res'
           = length ts + (tickers_processed res + tickers_failed res + skipped res)
       \<and> length (errors res') + tickers_failed res = length (errors res) + tickers_failed res'
       \<and> (\<exists>es. errors res' = errors res @ es \<and> (\<forall>x. PipelineFatalError x \<notin> set es))
       \<and> conn st' = conn st
       \<and> duration_recorded res' = duration_recorded res"
  using assms
proof (induction ts arbitrary: res st)
  case Nil
  then show ?case by (simp add: run_tickers_simps)
next
  case (Cons t ts)
  obtain res1 st1 where st: "step_ticker ev cfg dl inc s e vo t (res, st) = (res1, st1)"
    by (cases "step_ticker ev cfg dl inc s e vo t (res, st)")
  with Cons.prems have "run_tickers ev cfg dl inc s e vo ts (res1, st1) = (res', st')"
    by (simp add: run_tickers_simps)
  from Cons.IH [OF this] step_ticker_report [OF st] show ?case
    by (auto simp: add.commute)
qed

lemma connect_None:
  "connect outcome st = (None, st1) \<Longrightarrow> conn st1 \<and> table st1 = table st"
  by (auto simp: connect_def split: if_splits connect_outcome.splits)

lemma fail_with_simps:
  "errors (fail_with m res) = errors res @ [m]"
  "tickers_failed (fail_with m res) = tickers_failed res + 1"
  "warnings (fail_with m res) = warnings res"
  "total_rows_inserted (fail_with m res) = total_rows_inserted res"
  by (simp_all add: fail_with_def)

text \<open>
  Claim C8. An exception that leaves the processing of a ticker is caught by the loop: the
  error for that ticker is appended to the report, the failed counter goes up by one, and
  the loop goes on with the remaining tickers from the state the exception left; the error
  is in the final report. When the connection is established, every ticker of the list is
  accounted for as processed, failed or without data, each failure has its error, no fatal
  error is recorded and the duration is. Only a failure to connect makes the run fatal:
  then the report holds the fatal error alone. The storage is closed when the run returns,
  whichever way it went.
\<close>

theorem run_isolates_failures:
  "conn (snd (run ev cfg dl inc tickers s e vo st)) = False
   \<and> (\<forall>x. fst (connect (connect_outcome ev) st) = Some x
        \<longrightarrow> fst (run ev cfg dl inc tickers s e vo st)
            = initial_results\<lparr>errors := [PipelineFatalError x]\<rparr>)
   \<and> (fst (connect (connect_outcome ev) st) = None
        \<longrightarrow> tickers_processed (fst (run ev cfg dl inc tickers s e vo st))
              + tickers_failed (fst (run ev cfg dl inc tickers s e vo st))
              + skipped (fst (run ev cfg dl inc tickers s e vo st)) = length tickers
          \<and> length (errors (fst (run ev cfg dl inc tickers s e vo st)))
              = tickers_failed (fst (run ev cfg dl inc tickers s e vo st))
          \<and> (\<forall>x. PipelineFatalError x \<notin> set (errors (fst (run ev cfg dl inc tickers s e vo st))))
          \<and> duration_recorded (fst (run ev cfg dl inc tickers s e vo st)))
   \<and> (\<forall>before t after rs x res' st'.
          tickers = before @ t # after
          \<and> process_ticker ev cfg dl inc s e vo t (run_tickers ev cfg dl inc s e vo before rs)
              = (Some x, res', st')
        \<longrightarrow> run_tickers ev cfg dl inc s e vo tickers rs
              = run_tickers ev cfg dl inc s e vo after (fail_with (PipelineError t x) res', st')
          \<and> PipelineError t x \<in> set (errors (fst (run_tickers ev cfg dl inc s e vo tickers rs)))
          \<and> tickers_failed (fst (run_tickers ev cfg dl inc s e vo tickers rs))
              \<ge> tickers_failed res' + 1)"
proof (intro conjI allI impI)
  show "conn (snd (run ev cfg dl inc tickers s e vo st)) = False"
    by (auto simp: run_def close_storage_def split: prod.splits option.splits)
next
  fix x assume "fst (connect (connect_outcome ev) st) = Some x"
  then show "fst (run ev cfg dl inc tickers s e vo st)
            = initial_results\<lparr>errors := [PipelineFatalError x]\<rparr>"
    by (auto simp: run_def split: prod.splits option.splits)
next
  assume c: "fst (connect (connect_outcome ev) st) = None"
  then obtain st1 where st1: "connect (connect_outcome ev) st = (None, st1)"
    by (cases "connect (connect_outcome ev) st") auto
  obtain res st2
    where r: "run_tickers ev cfg dl inc s e vo tickers (initial_results, st1) = (res, st2)"
    by (cases "run_tickers ev cfg dl inc s e vo tickers (initial_results, st1)")
  from st1 r have run: "fst (run ev cfg dl inc tickers s e vo st) = res\<lparr>duration_recorded := True\<rparr>"
    by (simp add: run_def)
  note rep = run_tickers_report [OF r]
  from rep show "tickers_processed (fst (run ev cfg dl inc tickers s e vo st))
              + tickers_failed (fst (run ev cfg dl inc tickers s e vo st))
              + skipped (fst (run ev cfg dl inc tickers s e vo st)) = length tickers"
    by (simp add: run initial_results_def skipped_def)
  from rep show "length (errors (fst (run ev cfg dl inc tickers s e vo st)))
              = tickers_failed (fst (run ev cfg dl inc tickers s e vo st))"
    by (simp add: run initial_results_def)
  from rep show "PipelineFatalError x
      \<notin> set (errors (fst (run ev cfg dl inc tickers s e vo st)))" for x
    by (auto simp: run initial_results_def)
  show "duration_recorded (fst (run ev cfg dl inc tickers s e vo st))"
    by (simp add: run)
next
  fix before t after rs x res' st'
  assume a: "tickers = before @ t # after
          \<and> process_ticker ev cfg dl inc s e vo t (run_tickers ev cfg dl inc s e vo before rs)
              = (Some x, res', st')"
  then have st: "step_ticker ev cfg dl inc s e vo t (run_tickers ev cfg dl inc s e vo before rs)
      = (fail_with (PipelineError t x) res', st')"
    by (simp add: step_ticker_def)
  with a show eq: "run_tickers ev cfg dl inc s e vo tickers rs
              = run_tickers ev cfg dl inc s e vo after (fail_with (PipelineError t x) res', st')"
    by (simp add: run_tickers_simps)
  obtain res2 st2 where r: "run_tickers ev cfg dl inc s e vo after
      (fail_with (PipelineError t x) res', st') = (res2, st2)"
    by (cases "run_tickers ev cfg dl inc s e vo after (fail_with (PipelineError t x) res', st')")
  have fin: "fst (run_tickers ev cfg dl inc s e vo tickers rs) = res2"
    by (simp add: eq r)
  note rep = run_tickers_report [OF r]
  from rep show "PipelineError t x \<in> set (errors (fst (run_tickers ev cfg dl inc s e vo tickers rs)))"
    unfolding fin by (auto simp: fail_with_simps)
  from rep show "tickers_failed res' + 1
      \<le> tickers_failed (fst (run_tickers ev cfg dl inc s e vo tickers rs))"
    unfolding fin by (auto simp: fail_with_simps)
qed

lemma in_span_ticker: "in_span (Some t) lo hi s \<Longrightarrow> ticker (data s) = Some t"
  by (auto simp: in_span_def split: option.splits)

lemma filter_ticker_kept:
  assumes "t' \<noteq> t"
  shows "filter (\<lambda>r. ticker r = Some t') (map data (filter (\<lambda>s. \<not> in_span (Some t) lo hi s) tbl))
         = filter (\<lambda>r. ticker r = Some t') (map data tbl)"
  using assms by (induction tbl) (auto dest: in_span_ticker)

lemma filter_ticker_inserted:
  assumes "\<forall>r\<in>set rs. ticker r = Some t" and "t' \<noteq> t"
  shows "filter (\<lambda>r. ticker r = Some t') rs = []"
  using assms by (induction rs) auto

lemma get_last_date_upsert_other:
  assumes single: "\<forall>r\<in>set (rows d). ticker r = Some t" and ne: "\<not> df_empty d"
    and other: "t' \<noteq> t"
  shows "get_last_date (snd (upsert_data now (Some d) st)) t' = get_last_date st t'"
proof -
  from ne single have hd: "ticker (hd (rows d)) = Some t"
    by (cases "rows d") (auto simp: df_empty_def)
  have "filter (\<lambda>r. ticker r = Some t') (map data (table (snd (upsert_data now (Some d) st))))
      = filter (\<lambda>r. ticker r = Some t') (map data (table st))"
  proof (cases "Ticker \<notin> set (columns d) \<or> Date \<notin> set (columns d) \<or> \<not> conn st
                \<or> date_min d = None")
    case True
    with ne have "df_empty d \<or> Ticker \<notin> set (columns d) \<or> Date \<notin> set (columns d) \<or> \<not> conn st
                  \<or> date_min d = None"
      by simp
    from upsert_data_no_run(1) [OF this] show ?thesis by simp
  next
    case False
    then have g: "Ticker \<in> set (columns d)" "Date \<in> set (columns d)" "conn st"
      "date_min d \<noteq> None" by auto
    from upsert_data_run [OF ne g, unfolded hd, of now] show ?thesis
      by (auto simp: filter_ticker_kept [OF other] filter_ticker_inserted [OF single other]
            comp_def split: if_splits)
  qed
  then show ?thesis
    by (simp add: get_last_date_def conn_upsert_data)
qed

lemma fetch_window_last_date:
  assumes "get_last_date st t = get_last_date st' t"
  shows "fetch_window ev cfg inc s e st t = fetch_window ev cfg inc s e st' t"
  unfolding fetch_window_def by (subst assms) (rule refl)

lemma fetch_window_static:
  "\<not> inc \<or> truthy s
   \<Longrightarrow> fetch_window ev cfg inc s e st t = fetch_window ev cfg inc s e st' t"
  by (auto simp: fetch_window_def)

lemma upsert_data_engine_exn:
  assumes "conn st" and "set required_columns \<subseteq> set (columns d)"
    and "fst (upsert_data now (Some d) st) = Inl x"
  shows "is_engine_exn x"
  using assms
  by (auto simp: upsert_data_def Let_def required_columns_def is_engine_exn_def
        split: if_splits)

text \<open>
  One iteration of a validate-only run: the storage and the count of inserted rows stay
  as they are.
\<close>

lemma step_validate_only:
  "snd (step_ticker ev cfg dl inc s e True t (res, st)) = st
   \<and> total_rows_inserted (fst (step_ticker ev cfg dl inc s e True t (res, st)))
       = total_rows_inserted res"
proof (cases "fetch_window ev cfg inc s e st t")
  case (Inl x)
  from fetch_window_Inl [OF Inl] show ?thesis
    by (simp add: step_ticker_def fail_with_simps)
next
  case (Inr w)
  show ?thesis
  proof (cases rule: process_ticker_cases [of ev cfg inc s e t w dl])
    case (raise x)
    with Inr show ?thesis by (simp add: step_ticker_def fail_with_simps)
  next
    case skip
    with Inr show ?thesis by (simp add: step_ticker_def no_data_def)
  next
    case (schema errs)
    with Inr show ?thesis by (simp add: step_ticker_def fail_with_simps)
  next
    case (filtered qw)
    with Inr show ?thesis by (simp add: step_ticker_def fail_with_simps)
  next
    case (store wl df')
    from store(4) Inr show ?thesis by (simp add: step_ticker_def)
  qed
qed

lemma run_tickers_validate_only:
  "snd (run_tickers ev cfg dl inc s e True ts (res, st)) = st
   \<and> total_rows_inserted (fst (run_tickers ev cfg dl inc s e True ts (res, st)))
       = total_rows_inserted res"
proof (induction ts arbitrary: res)
  case Nil
  show ?case by (simp add: run_tickers_simps)
next
  case (Cons t ts)
  obtain res1 st1 where st: "step_ticker ev cfg dl inc s e True t (res, st) = (res1, st1)"
    by (cases "step_ticker ev cfg dl inc s e True t (res, st)")
  with step_validate_only [of ev cfg dl inc s e t res st]
  have "st1 = st" and "total_rows_inserted res1 = total_rows_inserted res" by simp_all
  with Cons.IH [of res1] st show ?case by (simp add: run_tickers_simps)
qed

text \<open>
  One iteration in a validate-only run and in a normal run whose storages give the ticker
  the same window: both append the same warnings, and the errors differ by the error of a
  failed store write only.
\<close>

lemma step_pair:
  assumes w: "fetch_window ev cfg inc s e stV t = fetch_window ev cfg inc s e stN t"
    and cN: "conn stN"
  shows "(\<exists>ws es.
           warnings (fst (step_ticker ev cfg dl inc s e True t (resV, stV))) = warnings resV @ ws
         \<and> warnings (fst (step_ticker ev cfg dl inc s e False t (resN, stN))) = warnings resN @ ws
         \<and> errors (fst (step_ticker ev cfg dl inc s e True t (resV, stV)))
             = errors resV @ filter (\<lambda>m. \<not> is_store_write_error m) es
         \<and> errors (fst (step_ticker ev cfg dl inc s e False t (resN, stN))) = errors resN @ es)
     \<and> conn (snd (step_ticker ev cfg dl inc s e False t (resN, stN)))
     \<and> (\<forall>t'. t' \<noteq> t
          \<longrightarrow> get_last_date (snd (step_ticker ev cfg dl inc s e False t (resN, stN))) t'
              = get_last_date stN t')"
proof (cases "fetch_window ev cfg inc s e stN t")
  case (Inl x)
  with w have wV: "fetch_window ev cfg inc s e stV t = Inl x" by simp
  from fetch_window_raises [OF Inl] have k: "\<not> is_engine_exn x" by simp
  from fetch_window_Inl [OF wV] fetch_window_Inl [OF Inl]
  have "step_ticker ev cfg dl inc s e True t (resV, stV)
        = (fail_with (PipelineError t x) resV, stV)"
    and "step_ticker ev cfg dl inc s e False t (resN, stN)
        = (fail_with (PipelineError t x) resN, stN)"
    by (simp_all add: step_ticker_def)
  then show ?thesis using cN k
    by (auto simp: fail_with_simps intro!: exI [of _ "[]"] exI [of _ "[PipelineError t x]"])
next
  case (Inr win)
  note wN = Inr
  with w have wV: "fetch_window ev cfg inc s e stV t = Inr win" by simp
  show ?thesis
  proof (cases rule: process_ticker_cases [of ev cfg inc s e t win dl])
    case (raise x)
    with wV wN have "step_ticker ev cfg dl inc s e True t (resV, stV)
        = (fail_with (PipelineError t x) resV, stV)"
      and "step_ticker ev cfg dl inc s e False t (resN, stN)
        = (fail_with (PipelineError t x) resN, stN)"
      by (simp_all add: step_ticker_def)
    then show ?thesis using cN raise(1)
      by (auto simp: fail_with_simps intro!: exI [of _ "[]"] exI [of _ "[PipelineError t x]"])
  next
    case skip
    with wV wN have "step_ticker ev cfg dl inc s e True t (resV, stV) = (no_data t resV, stV)"
      and "step_ticker ev cfg dl inc s e False t (resN, stN) = (no_data t resN, stN)"
      by (simp_all add: step_ticker_def)
    then show ?thesis using cN
      by (auto simp: no_data_def intro!: exI [of _ "[NoDataAvailable t]"] exI [of _ "[]"])
  next
    case (schema errs)
    with wV wN have "step_ticker ev cfg dl inc s e True t (resV, stV)
        = (fail_with (SchemaValidationFailed t errs) resV, stV)"
      and "step_ticker ev cfg dl inc s e False t (resN, stN)
        = (fail_with (SchemaValidationFailed t errs) resN, stN)"
      by (simp_all add: step_ticker_def)
    then show ?thesis using cN
      by (auto simp: fail_with_simps
            intro!: exI [of _ "[]"] exI [of _ "[SchemaValidationFailed t errs]"])
  next
    case (filtered qw)
    with wV wN have "step_ticker ev cfg dl inc s e True t (resV, stV)
        = (fail_with (AllRowsFiltered t)
             (resV\<lparr>warnings := warnings resV @ [DataQualityWarnings t qw]\<rparr>), stV)"
      and "step_ticker ev cfg dl inc s e False t (resN, stN)
        = (fail_with (AllRowsFiltered t)
             (resN\<lparr>warnings := warnings resN @ [DataQualityWarnings t qw]\<rparr>), stN)"
      by (simp_all add: step_ticker_def)
    then show ?thesis using cN
      by (auto simp: fail_with_simps
            intro!: exI [of _ "[DataQualityWarnings t qw]"] exI [of _ "[AllRowsFiltered t]"])
  next
    case (store wl df')
    from store(4) wV have V: "step_ticker ev cfg dl inc s e True t (resV, stV)
        = (resV\<lparr>warnings := warnings resV @ wl,
                 tickers_processed := tickers_processed resV + 1\<rparr>, stV)"
      by (simp add: step_ticker_def)
    obtain r st2 where u: "upsert_data (insert_time ev t) (Some df') stN = (r, st2)"
      by (cases "upsert_data (insert_time ev t) (Some df') stN")
    from conn_upsert_data [of "insert_time ev t" "Some df'" stN] u cN
    have c2: "conn st2" by simp
    from get_last_date_upsert_other [OF store(1,2), of _ "insert_time ev t" stN] u
    have g2: "\<forall>t'. t' \<noteq> t \<longrightarrow> get_last_date st2 t' = get_last_date stN t'" by simp
    show ?thesis
    proof (cases r)
      case (Inl x)
      with upsert_data_engine_exn [OF cN store(6), of "insert_time ev t" x] u
      have k: "is_engine_exn x" by simp
      from Inl store(5) wN u have "step_ticker ev cfg dl inc s e False t (resN, stN)
          = (fail_with (PipelineError t x) (resN\<lparr>warnings := warnings resN @ wl\<rparr>), st2)"
        by (simp add: step_ticker_def)
      with V c2 g2 k show ?thesis
        by (auto simp: fail_with_simps intro!: exI [of _ wl] exI [of _ "[PipelineError t x]"])
    next
      case (Inr n)
      with store(5) wN u have "step_ticker ev cfg dl inc s e False t (resN, stN)
          = (resN\<lparr>warnings := warnings resN @ wl,
                   total_rows_inserted := total_rows_inserted resN + n,
                   tickers_processed := tickers_processed resN + 1\<rparr>, st2)"
        by (simp add: step_ticker_def)
      with V c2 g2 show ?thesis
        by (auto intro!: exI [of _ wl] exI [of _ "[]"])
    qed
  qed
qed

lemma run_pair:
  assumes "conn stN"
    and "\<forall>t\<in>set ts. fetch_window ev cfg inc s e stV t = fetch_window ev cfg inc s e stN t"
    and "distinct ts \<or> \<not> inc \<or> truthy s"
  shows "\<exists>ws es.
           warnings (fst (run_tickers ev cfg dl inc s e True ts (resV, stV))) = warnings resV @ ws
         \<and> warnings (fst (run_tickers ev cfg dl inc s e False ts (resN, stN))) = warnings resN @ ws
         \<and> errors (fst (run_tickers ev cfg dl inc s e True ts (resV, stV)))
             = errors resV @ filter (\<lambda>m. \<not> is_store_write_error m) es
         \<and> errors (fst (run_tickers ev cfg dl inc s e False ts (resN, stN))) = errors resN @ es"
  using assms
proof (induction ts arbitrary: resV resN stN)
  case Nil
  show ?case by (auto simp: run_tickers_simps intro!: exI [of _ "[]"])
next
  case (Cons t ts)
  from Cons.prems(2) have wt: "fetch_window ev cfg inc s e stV t = fetch_window ev cfg inc s e stN t"
    by simp
  obtain resV1 stV1 where sV: "step_ticker ev cfg dl inc s e True t (resV, stV) = (resV1, stV1)"
    by (cases "step_ticker ev cfg dl inc s e True t (resV, stV)")
  obtain resN1 stN1 where sN: "step_ticker ev cfg dl inc s e False t (resN, stN) = (resN1, stN1)"
    by (cases "step_ticker ev cfg dl inc s e False t (resN, stN)")
  from step_validate_only [of ev cfg dl inc s e t resV stV] sV have sv: "stV1 = stV" by simp
  from step_pair [OF wt Cons.prems(1), of dl resV resN] sV sN
  obtain ws1 es1 where 1:
      "warnings resV1 = warnings resV @ ws1" "warnings resN1 = warnings resN @ ws1"
      "errors resV1 = errors resV @ filter (\<lambda>m. \<not> is_store_write_error m) es1"
      "errors resN1 = errors resN @ es1" "conn stN1"
      "\<forall>t'. t' \<noteq> t \<longrightarrow> get_last_date stN1 t' = get_last_date stN t'"
    by auto
  have win: "\<forall>t'\<in>set ts. fetch_window ev cfg inc s e stV t' = fetch_window ev cfg inc s e stN1 t'"
  proof
    fix t' assume t': "t' \<in> set ts"
    with Cons.prems(2) have a: "fetch_window ev cfg inc s e stV t' = fetch_window ev cfg inc s e stN t'"
      by simp
    show "fetch_window ev cfg inc s e stV t' = fetch_window ev cfg inc s e stN1 t'"
    proof (cases "\<not> inc \<or> truthy s")
      case True
      from fetch_window_static [OF True] show ?thesis by blast
    next
      case False
      with Cons.prems(3) t' have "t' \<noteq> t" by auto
      with 1(6) have "get_last_date stN1 t' = get_last_date stN t'" by simp
      from fetch_window_last_date [OF this] a show ?thesis by simp
    qed
  qed
  from Cons.prems(3) have d: "distinct ts \<or> \<not> inc \<or> truthy s" by auto
  from Cons.IH [OF 1(5) win d, of resV1 resN1]
  obtain ws2 es2 where 2:
      "warnings (fst (run_tickers ev cfg dl inc s e True ts (resV1, stV))) = warnings resV1 @ ws2"
      "warnings (fst (run_tickers ev cfg dl inc s e False ts (resN1, stN1))) = warnings resN1 @ ws2"
      "errors (fst (run_tickers ev cfg dl inc s e True ts (resV1, stV)))
         = errors resV1 @ filter (\<lambda>m. \<not> is_store_write_error m) es2"
      "errors (fst (run_tickers ev cfg dl inc s e False ts (resN1, stN1))) = errors resN1 @ es2"
    by auto
  have V: "run_tickers ev cfg dl inc s e True (t # ts) (resV, stV)
      = run_tickers ev cfg dl inc s e True ts (resV1, stV)"
    using sV sv by (simp add: run_tickers_simps)
  have N: "run_tickers ev cfg dl inc s e False (t # ts) (resN, stN)
      = run_tickers ev cfg dl inc s e False ts (resN1, stN1)"
    using sN by (simp add: run_tickers_simps)
  show ?case
    unfolding V N using 1 2
    by (auto intro!: exI [of _ "ws1 @ ws2"] exI [of _ "es1 @ es2"])
qed

subsection \<open>A concrete run\<close>

lemma dl3:
  "dl_max_retries example_downloader = 3"
  "sleep (dl_retry_delay example_downloader) = None"
  by (simp_all add: example_downloader_def example_downloader_simps)

lemma normalize_history:
  "normalize t \<lparr>schema = history_schema, rows = [quote d1 o1 h1 l1 c1 v1, quote d2 o2 h2 l2 c2 v2]\<rparr>
   = Inr \<lparr>schema = pricebar_schema, rows = [bar t d1 o1 h1 l1 c1 v1, bar t d2 o2 h2 l2 c2 v2]\<rparr>"
  by (simp add: normalize_def Let_def history_schema_def pricebar_schema_def
      required_columns_def columns_def dtype_fails_def to_datetime_raises_def quote_def bar_def)

lemma history_frame_not_empty:
  "\<not> df_empty \<lparr>schema = history_schema, rows = r # rs\<rparr>"
  by (simp add: df_empty_def history_schema_def pricebar_schema_def)

lemma pricebar_frame_not_empty:
  "\<not> df_empty \<lparr>schema = pricebar_schema, rows = r # rs\<rparr>"
  by (simp add: df_empty_def pricebar_schema_def)

lemma example_env_simps:
  "yfinance (example_env yf) = yf"
  "insert_time (example_env yf) t = 1"
  "strftime (example_env yf) = iso_date"
  "connect_outcome (example_env yf) = ConnectOk"
  by (simp_all add: example_env_def)

lemma download_bad:
  "download_ticker example_settings example_downloader steady_provider ''BAD'' s e
   = Inr (Some \<lparr>schema = pricebar_schema,
           rows = [bar ''BAD'' 738886 10 12 9 11 1000, bar ''BAD'' 738886 10 12 9 11 1000]\<rparr>)"
  by (simp add: download_ticker_def dl3 upto_0_2 attempt_body_def
      steady_provider_def repeating_provider_def normalize_history history_frame_not_empty)

lemma download_good:
  "download_ticker example_settings example_downloader steady_provider ''GOOD'' s e
   = Inr (Some \<lparr>schema = pricebar_schema,
           rows = [bar ''GOOD'' 738886 10 12 9 11 1000, bar ''GOOD'' 738887 11 13 10 12 2000]\<rparr>)"
  by (simp add: download_ticker_def dl3 upto_0_2 attempt_body_def
      steady_provider_def normalize_history history_frame_not_empty)

lemma validate_bad:
  "validate example_settings (Some \<lparr>schema = pricebar_schema,
           rows = [bar ''BAD'' 738886 10 12 9 11 1000, bar ''BAD'' 738886 10 12 9 11 1000]\<rparr>)
   = Inr (False, [], [DuplicateKeys 1])"
  by (simp add: validate_def validate_schema_def validate_data_quality_def schema_errors_def
      df_empty_def pricebar_schema_def bar_def example_settings_def default_settings_def
      columns_def required_columns_def price_cols_def dtype_fails_def is_string_dtype_def
      is_numeric_dtype_def to_datetime_raises_def check_min_points_def
      check_negative_prices_def check_negative_volume_def check_high_low_def
      check_missing_def check_duplicates_def check_gaps_def count_rows_def
      duplicated_count_def large_gaps_def key_def vol_lt_def)

lemma validate_good:
  "validate example_settings (Some \<lparr>schema = pricebar_schema,
           rows = [bar ''GOOD'' 738886 10 12 9 11 1000, bar ''GOOD'' 738887 11 13 10 12 2000]\<rparr>)
   = Inr (True, [], [])"
  by (simp add: validate_def validate_schema_def validate_data_quality_def schema_errors_def
      df_empty_def pricebar_schema_def bar_def example_settings_def default_settings_def
      columns_def required_columns_def price_cols_def dtype_fails_def is_string_dtype_def
      is_numeric_dtype_def to_datetime_raises_def check_min_points_def
      check_negative_prices_def check_negative_volume_def check_high_low_def
      check_missing_def check_duplicates_def check_gaps_def count_rows_def
      duplicated_count_def large_gaps_def key_def vol_lt_def)

lemma filter_bad:
  "filter_invalid_rows (Some \<lparr>schema = pricebar_schema,
           rows = [bar ''BAD'' 738886 10 12 9 11 1000, bar ''BAD'' 738886 10 12 9 11 1000]\<rparr>)
   = Inr (Some \<lparr>schema = pricebar_schema,
           rows = [bar ''BAD'' 738886 10 12 9 11 1000, bar ''BAD'' 738886 10 12 9 11 1000]\<rparr>)"
  by (simp add: filter_invalid_rows_def df_empty_def pricebar_schema_def bar_def columns_def
      price_cols_def drop_negative_def keep_rows_def vol_ge_def)

lemma upsert_bad:
  "upsert_data now (Some \<lparr>schema = pricebar_schema,
           rows = [bar ''BAD'' 738886 10 12 9 11 1000, bar ''BAD'' 738886 10 12 9 11 1000]\<rparr>)
      \<lparr>conn = True, table = []\<rparr>
   = (Inl ConstraintException, \<lparr>conn = True, table = []\<rparr>)"
  by (simp add: upsert_data_def Let_def df_empty_def columns_def pricebar_schema_def
      required_columns_def date_min_def date_max_def date_values_def in_span_def
      violates_def key_def bar_def fits_bigint_def)

lemma upsert_good:
  "upsert_data now (Some \<lparr>schema = pricebar_schema,
           rows = [bar ''GOOD'' 738886 10 12 9 11 1000, bar ''GOOD'' 738887 11 13 10 12 2000]\<rparr>)
      \<lparr>conn = True, table = []\<rparr>
   = (Inr 2, \<lparr>conn = True,
        table = [\<lparr>data = bar ''GOOD'' 738886 10 12 9 11 1000, created_at = now\<rparr>,
                 \<lparr>data = bar ''GOOD'' 738887 11 13 10 12 2000, created_at = now\<rparr>]\<rparr>)"
  by (simp add: upsert_data_def Let_def df_empty_def columns_def pricebar_schema_def
      required_columns_def date_min_def date_max_def date_values_def in_span_def
      violates_def key_def bar_def fits_bigint_def)

lemma window_empty_table:
  "fetch_window ev example_settings True None None \<lparr>conn = True, table = []\<rparr> t
   = Inr (''2019-11-05'', ''2024-11-03'')"
  by (simp add: fetch_window_def truthy_def str_or_def get_last_date_def date_values_def
      example_settings_def default_settings_def)

lemma step_bad:
  "step_ticker (example_env steady_provider) example_settings example_downloader True None None
      vo ''BAD'' (res, \<lparr>conn = True, table = []\<rparr>)
   = (if vo then res\<lparr>warnings := warnings res @ [DataQualityWarnings ''BAD'' [DuplicateKeys 1]],
                     tickers_processed := tickers_processed res + 1\<rparr>
      else fail_with (PipelineError ''BAD'' ConstraintException)
             (res\<lparr>warnings := warnings res @ [DataQualityWarnings ''BAD'' [DuplicateKeys 1]]\<rparr>),
      \<lparr>conn = True, table = []\<rparr>)"
  by (simp add: step_ticker_def process_ticker_def window_empty_table download_bad
      validate_bad filter_bad upsert_bad pricebar_frame_not_empty example_env_simps
      fail_with_def)

lemma step_good:
  "step_ticker (example_env steady_provider) example_settings example_downloader True None None
      vo ''GOOD'' (res, \<lparr>conn = True, table = []\<rparr>)
   = (if vo then (res\<lparr>tickers_processed := tickers_processed res + 1\<rparr>,
                  \<lparr>conn = True, table = []\<rparr>)
      else (res\<lparr>total_rows_inserted := total_rows_inserted res + 2,
                 tickers_processed := tickers_processed res + 1\<rparr>,
            \<lparr>conn = True,
              table = [\<lparr>data = bar ''GOOD'' 738886 10 12 9 11 1000, created_at = 1\<rparr>,
                       \<lparr>data = bar ''GOOD'' 738887 11 13 10 12 2000, created_at = 1\<rparr>]\<rparr>))"
  by (simp add: step_ticker_def process_ticker_def window_empty_table download_good
      validate_good upsert_good pricebar_frame_not_empty example_env_simps)

lemma connect_Some:
  "connect outcome st = (Some x, st1) \<Longrightarrow> table st1 = table st"
  by (auto simp: connect_def split: if_splits connect_outcome.splits)

lemma run_steady_normal:
  "run (example_env steady_provider) example_settings example_downloader True
      [''BAD'', ''GOOD''] None None False fresh_storage
   = (\<lparr>tickers_processed = 1, tickers_failed = 1, total_rows_inserted = 2,
       errors = [PipelineError ''BAD'' ConstraintException],
       warnings = [DataQualityWarnings ''BAD'' [DuplicateKeys 1]],
       duration_recorded = True\<rparr>,
      \<lparr>conn = False,
        table = [\<lparr>data = bar ''GOOD'' 738886 10 12 9 11 1000, created_at = 1\<rparr>,
                 \<lparr>data = bar ''GOOD'' 738887 11 13 10 12 2000, created_at = 1\<rparr>]\<rparr>)"
  by (simp add: run_def connect_def fresh_storage_def example_env_simps run_tickers_simps
      step_bad step_good initial_results_def close_storage_def fail_with_def)

lemma run_steady_validate_only:
  "run (example_env steady_provider) example_settings example_downloader True
      [''BAD'', ''GOOD''] None None True fresh_storage
   = (\<lparr>tickers_processed = 2, tickers_failed = 0, total_rows_inserted = 0,
       errors = [],
       warnings = [DataQualityWarnings ''BAD'' [DuplicateKeys 1]],
       duration_recorded = True\<rparr>,
      \<lparr>conn = False, table = []\<rparr>)"
  by (simp add: run_def connect_def fresh_storage_def example_env_simps run_tickers_simps
      step_bad step_good initial_results_def close_storage_def fail_with_def)

text \<open>
  The theorem on a run of two tickers: the first fails at the store write, the second is
  processed and stored.
\<close>

theorem run_isolates_failures_witness:
  "process_ticker (example_env steady_provider) example_settings example_downloader True
      None None False ''BAD'' (initial_results, \<lparr>conn = True, table = []\<rparr>)
     = (Some ConstraintException,
        initial_results\<lparr>warnings := [DataQualityWarnings ''BAD'' [DuplicateKeys 1]]\<rparr>,
        \<lparr>conn = True, table = []\<rparr>)
   \<and> run (example_env steady_provider) example_settings example_downloader True
      [''BAD'', ''GOOD''] None None False fresh_storage
     = (\<lparr>tickers_processed = 1, tickers_failed = 1, total_rows_inserted = 2,
         errors = [PipelineError ''BAD'' ConstraintException],
         warnings = [DataQualityWarnings ''BAD'' [DuplicateKeys 1]],
         duration_recorded = True\<rparr>,
        \<lparr>conn = False,
          table = [\<lparr>data = bar ''GOOD'' 738886 10 12 9 11 1000, created_at = 1\<rparr>,
                   \<lparr>data = bar ''GOOD'' 738887 11 13 10 12 2000, created_at = 1\<rparr>]\<rparr>)
   \<and> PipelineError ''BAD'' ConstraintException
       \<in> set (errors (fst (run_tickers (example_env steady_provider) example_settings
             example_downloader True None None False [''BAD'', ''GOOD'']
             (initial_results, \<lparr>conn = True, table = []\<rparr>))))"
proof -
  let ?ev = "example_env steady_provider"
  let ?st = "\<lparr>conn = True, table = []\<rparr>"
  have p: "process_ticker ?ev example_settings example_downloader True None None False ''BAD''
      (initial_results, ?st)
     = (Some ConstraintException,
        initial_results\<lparr>warnings := [DataQualityWarnings ''BAD'' [DuplicateKeys 1]]\<rparr>, ?st)"
    by (simp add: process_ticker_def window_empty_table download_bad validate_bad filter_bad
        upsert_bad pricebar_frame_not_empty example_env_simps initial_results_def)
  have split: "[''BAD'', ''GOOD''] = [] @ ''BAD'' # [''GOOD'']" by simp
  have p': "process_ticker ?ev example_settings example_downloader True None None False ''BAD''
      (run_tickers ?ev example_settings example_downloader True None None False []
         (initial_results, ?st))
     = (Some ConstraintException,
        initial_results\<lparr>warnings := [DataQualityWarnings ''BAD'' [DuplicateKeys 1]]\<rparr>, ?st)"
    using p by (simp add: run_tickers_simps)
  from run_isolates_failures [where tickers = "[''BAD'', ''GOOD'']" and ev = ?ev
      and cfg = example_settings and dl = example_downloader and inc = True and s = None
      and e = None and vo = False and st = fresh_storage] split p'
  have "PipelineError ''BAD'' ConstraintException
       \<in> set (errors (fst (run_tickers ?ev example_settings
             example_downloader True None None False [''BAD'', ''GOOD''] (initial_results, ?st))))"
    by blast
  with p run_steady_normal show ?thesis by simp
qed

lemma download_caught_up_full:
  "download_ticker example_settings example_downloader caught_up_provider ''GOOD''
      (Some ''2019-11-05'') (Some ''2024-11-03'')
   = Inr (Some \<lparr>schema = pricebar_schema,
           rows = [bar ''GOOD'' 738886 10 12 9 11 1000, bar ''GOOD'' 738887 11 13 10 12 2000]\<rparr>)"
  by (simp add: download_ticker_def dl3 upto_0_2 str_or_def attempt_body_def
      caught_up_provider_def normalize_history history_frame_not_empty)

lemma download_caught_up_later:
  "download_ticker example_settings example_downloader caught_up_provider ''GOOD''
      (Some ''2024-01-03'') (Some ''2024-11-03'') = Inr None"
  by (simp add: download_ticker_def dl3 upto_0_2 str_or_def attempt_body_def
      caught_up_provider_def df_empty_def)

lemma step_caught_up_first:
  "step_ticker (example_env caught_up_provider) example_settings example_downloader True
      None None vo ''GOOD'' (res, \<lparr>conn = True, table = []\<rparr>)
   = (if vo then (res\<lparr>tickers_processed := tickers_processed res + 1\<rparr>,
                  \<lparr>conn = True, table = []\<rparr>)
      else (res\<lparr>total_rows_inserted := total_rows_inserted res + 2,
                 tickers_processed := tickers_processed res + 1\<rparr>,
            \<lparr>conn = True,
              table = [\<lparr>data = bar ''GOOD'' 738886 10 12 9 11 1000, created_at = 1\<rparr>,
                       \<lparr>data = bar ''GOOD'' 738887 11 13 10 12 2000, created_at = 1\<rparr>]\<rparr>))"
  by (simp add: step_ticker_def process_ticker_def window_empty_table download_caught_up_full
      validate_good upsert_good pricebar_frame_not_empty example_env_simps)

lemma iso_738888: "iso_date 738888 = ''2024-01-03''"
  by code_simp

lemma window_after_first:
  "fetch_window (example_env yf) example_settings True None None
      \<lparr>conn = True,
        table = [\<lparr>data = bar ''GOOD'' 738886 10 12 9 11 1000, created_at = n\<rparr>,
                 \<lparr>data = bar ''GOOD'' 738887 11 13 10 12 2000, created_at = n\<rparr>]\<rparr> ''GOOD''
   = Inr (''2024-01-03'', ''2024-11-03'')"
  by (simp add: fetch_window_def truthy_def str_or_def get_last_date_def date_values_def
      example_settings_def default_settings_def bar_def example_env_simps iso_738888
      next_day_def max_ordinal_def)

lemma step_caught_up_second:
  "step_ticker (example_env caught_up_provider) example_settings example_downloader True
      None None False ''GOOD''
      (res, \<lparr>conn = True,
              table = [\<lparr>data = bar ''GOOD'' 738886 10 12 9 11 1000, created_at = n\<rparr>,
                       \<lparr>data = bar ''GOOD'' 738887 11 13 10 12 2000, created_at = n\<rparr>]\<rparr>)
   = (no_data ''GOOD'' res,
      \<lparr>conn = True,
        table = [\<lparr>data = bar ''GOOD'' 738886 10 12 9 11 1000, created_at = n\<rparr>,
                 \<lparr>data = bar ''GOOD'' 738887 11 13 10 12 2000, created_at = n\<rparr>]\<rparr>)"
  by (simp add: step_ticker_def process_ticker_def window_after_first download_caught_up_later
      example_env_simps)

text \<open>
  Claim C9 fails as stated in its last part. A ticker whose rows repeat a date passes
  validation with a warning and fails at the store write: the normal run reports a
  pipeline error that the validate-only run cannot have. And when a ticker is listed twice
  in an incremental run, its second occurrence sees in the normal run the rows the first
  one stored, asks for a later window and may get no data, while in the validate-only run
  both occurrences ask for the same window.
\<close>

theorem validate_only_counterexample:
  "errors (fst (run (example_env steady_provider) example_settings example_downloader True
      [''BAD''] None None True fresh_storage)) = []
   \<and> errors (fst (run (example_env steady_provider) example_settings example_downloader True
      [''BAD''] None None False fresh_storage)) = [PipelineError ''BAD'' ConstraintException]
   \<and> warnings (fst (run (example_env caught_up_provider) example_settings example_downloader True
      [''GOOD'', ''GOOD''] None None True fresh_storage)) = []
   \<and> warnings (fst (run (example_env caught_up_provider) example_settings example_downloader True
      [''GOOD'', ''GOOD''] None None False fresh_storage)) = [NoDataAvailable ''GOOD'']"
  by (simp add: run_def connect_def fresh_storage_def example_env_simps run_tickers_simps
      step_bad step_caught_up_first step_caught_up_second initial_results_def
      close_storage_def fail_with_def no_data_def)

text \<open>
  Claim C9, amended. A validate-only run writes no row to the store and reports no
  inserted row, whatever validation finds and whatever the list of tickers. When no ticker
  is listed twice (or the run is not incremental, or a start date is given), its warnings
  are those of the normal run from the same state, and its errors are the errors of the
  normal run other than the pipeline errors of failed store writes, those that carry an
  exception of the database engine: the two reports carry the same messages whenever no
  store write fails. Every other error, that of a window that cannot be computed or of a
  download that raises included, is in both reports.
\<close>

theorem validate_only_run:
  "table (snd (run ev cfg dl inc tickers s e True st)) = table st
   \<and> total_rows_inserted (fst (run ev cfg dl inc tickers s e True st)) = 0
   \<and> (distinct tickers \<or> \<not> inc \<or> truthy s
        \<longrightarrow> warnings (fst (run ev cfg dl inc tickers s e True st))
              = warnings (fst (run ev cfg dl inc tickers s e False st))
          \<and> errors (fst (run ev cfg dl inc tickers s e True st))
              = filter (\<lambda>m. \<not> is_store_write_error m)
                  (errors (fst (run ev cfg dl inc tickers s e False st))))"
proof (cases "connect (connect_outcome ev) st")
  case (Pair r st1)
  show ?thesis
  proof (cases r)
    case (Some x)
    with Pair connect_Some [of "connect_outcome ev" st x st1] show ?thesis
      by (simp add: run_def close_storage_def initial_results_def)
  next
    case None
    with Pair connect_None [of "connect_outcome ev" st st1]
    have c: "conn st1" and t: "table st1 = table st" by auto
    have same: "\<forall>t\<in>set tickers. fetch_window ev cfg inc s e st1 t = fetch_window ev cfg inc s e st1 t"
      by simp
    obtain resV stV where V: "run_tickers ev cfg dl inc s e True tickers (initial_results, st1)
        = (resV, stV)"
      by (cases "run_tickers ev cfg dl inc s e True tickers (initial_results, st1)")
    obtain resN stN where N: "run_tickers ev cfg dl inc s e False tickers (initial_results, st1)
        = (resN, stN)"
      by (cases "run_tickers ev cfg dl inc s e False tickers (initial_results, st1)")
    from run_tickers_validate_only [of ev cfg dl inc s e tickers initial_results st1] V
    have unchanged: "stV = st1" "total_rows_inserted resV = 0"
      by (simp_all add: initial_results_def)
    have "warnings resV = warnings resN
        \<and> errors resV = filter (\<lambda>m. \<not> is_store_write_error m) (errors resN)"
      if d: "distinct tickers \<or> \<not> inc \<or> truthy s"
    proof -
      from run_pair [OF c same d, of dl initial_results initial_results] V N
      obtain ws es where "warnings resV = ws" "warnings resN = ws"
        "errors resV = filter (\<lambda>m. \<not> is_store_write_error m) es" "errors resN = es"
        by (auto simp: initial_results_def)
      then show ?thesis by simp
    qed
    with Pair None V N t unchanged show ?thesis
      by (simp add: run_def close_storage_def)
  qed
qed

text \<open>
  The theorem on the same two tickers, validate-only against normal.
\<close>

theorem validate_only_run_witness:
  "distinct [''BAD'', ''GOOD'']
   \<and> run (example_env steady_provider) example_settings example_downloader True
      [''BAD'', ''GOOD''] None None True fresh_storage
     = (\<lparr>tickers_processed = 2, tickers_failed = 0, total_rows_inserted = 0,
         errors = [],
         warnings = [DataQualityWarnings ''BAD'' [DuplicateKeys 1]],
         duration_recorded = True\<rparr>,
        \<lparr>conn = False, table = []\<rparr>)
   \<and> warnings (fst (run (example_env steady_provider) example_settings example_downloader True
      [''BAD'', ''GOOD''] None None False fresh_storage))
     = [DataQualityWarnings ''BAD'' [DuplicateKeys 1]]
   \<and> errors (fst (run (example_env steady_provider) example_settings example_downloader True
      [''BAD'', ''GOOD''] None None False fresh_storage))
     = [PipelineError ''BAD'' ConstraintException]
   \<and> filter (\<lambda>m. \<not> is_store_write_error m)
       (errors (fst (run (example_env steady_provider) example_settings example_downloader True
          [''BAD'', ''GOOD''] None None False fresh_storage))) = []"
proof -
  have h: "distinct [''BAD'', ''GOOD''] \<or> \<not> True \<or> truthy None" by simp
  note v = validate_only_run [where ev = "example_env steady_provider"
      and cfg = example_settings and dl = example_downloader and e = None
      and st = fresh_storage and tickers = "[''BAD'', ''GOOD'']" and inc = True and s = None]
  from v h run_steady_validate_only
  have "warnings (fst (run (example_env steady_provider) example_settings example_downloader True
      [''BAD'', ''GOOD''] None None False fresh_storage))
     = [DataQualityWarnings ''BAD'' [DuplicateKeys 1]]"
    and "filter (\<lambda>m. \<not> is_store_write_error m)
       (errors (fst (run (example_env steady_provider) example_settings example_downloader True
          [''BAD'', ''GOOD''] None None False fresh_storage))) = []"
    by simp_all
  with run_steady_validate_only run_steady_normal show ?thesis by simp
qed

subsection \<open>Incremental window\<close>
















end
